theory Spec2Isabelle
  imports Complex_Main "HOL-Library.Product_Lexorder"
begin

section \<open>Relative Rotation Graph: metrics and animation frames (rrg.py)\<close>

text \<open>
  The embedding follows \<^verbatim>\<open>src/rrg.py\<close>: \<^verbatim>\<open>calculate\<close> (the metrics engine) and
  \<^verbatim>\<open>build_frames\<close> (the frame builder). The pandas and plotly objects the two functions
  handle are written out as plain data: a table is its time index and its columns, a
  scatter trace, a frame and a slider step are records of the fields the source sets.
\<close>

subsection \<open>Exceptions\<close>

datatype error = ValueError | KeyError | IndexError

subsection \<open>Floating-point values\<close>

text \<open>
  A cell of a table is a double (IEEE 754 binary64). The model keeps not-a-number, the two
  infinities and the finite values apart; a finite value is the real number it stands for.
  Every arithmetic operation rounds its exact result to the nearest double, ties to the
  even significand: 53 binary digits, the smallest spacing \<open>2 powr -1074\<close>, and an
  infinity for a rounded result of \<open>2 ^ 1024\<close> or more. Comparison and absolute value
  are exact. The sign of a zero is not modelled: a zero divisor is taken for \<open>+0\<close>.
\<close>

datatype fl = NaN | NInf | Fin real | PInf

text \<open>The nearest integer, a tie going to the even one.\<close>

definition round_even :: "real \<Rightarrow> int" where
  "round_even r =
     (let f = \<lfloor>r\<rfloor>; d = r - of_int f
      in if d < 1 / 2 then f else if 1 / 2 < d then f + 1 else if even f then f else f + 1)"

text \<open>The spacing of the doubles around \<open>x \<noteq> 0\<close>, and the double nearest to \<open>x\<close>.\<close>

definition ulp :: "real \<Rightarrow> real" where
  "ulp x = 2 powr of_int (max \<lfloor>log 2 \<bar>x\<bar>\<rfloor> (- 1022) - 52)"

definition fl_round :: "real \<Rightarrow> fl" where
  "fl_round x =
     (if x = 0 then Fin 0
      else (let y = of_int (round_even (x / ulp x)) * ulp x
            in if 2 ^ 1024 \<le> \<bar>y\<bar> then (if 0 < x then PInf else NInf) else Fin y))"

fun fl_add :: "fl \<Rightarrow> fl \<Rightarrow> fl" where
  "fl_add (Fin a) (Fin b) = fl_round (a + b)"
| "fl_add NaN _ = NaN"
| "fl_add _ NaN = NaN"
| "fl_add PInf NInf = NaN"
| "fl_add NInf PInf = NaN"
| "fl_add PInf _ = PInf"
| "fl_add NInf _ = NInf"
| "fl_add _ PInf = PInf"
| "fl_add _ NInf = NInf"

fun fl_sub :: "fl \<Rightarrow> fl \<Rightarrow> fl" where
  "fl_sub (Fin a) (Fin b) = fl_round (a - b)"
| "fl_sub NaN _ = NaN"
| "fl_sub _ NaN = NaN"
| "fl_sub PInf PInf = NaN"
| "fl_sub NInf NInf = NaN"
| "fl_sub PInf _ = PInf"
| "fl_sub NInf _ = NInf"
| "fl_sub _ PInf = NInf"
| "fl_sub _ NInf = PInf"

text \<open>The sign of a value, for the products and quotients with an infinity.\<close>

fun fl_sgn :: "fl \<Rightarrow> int" where
  "fl_sgn NaN = 0"
| "fl_sgn NInf = -1"
| "fl_sgn PInf = 1"
| "fl_sgn (Fin a) = (if a < 0 then -1 else if a = 0 then 0 else 1)"

definition fl_inf :: "int \<Rightarrow> fl" where
  "fl_inf s = (if s < 0 then NInf else if s = 0 then NaN else PInf)"

fun fl_mul :: "fl \<Rightarrow> fl \<Rightarrow> fl" where
  "fl_mul (Fin a) (Fin b) = fl_round (a * b)"
| "fl_mul NaN _ = NaN"
| "fl_mul _ NaN = NaN"
| "fl_mul a b = fl_inf (fl_sgn a * fl_sgn b)"

fun fl_div :: "fl \<Rightarrow> fl \<Rightarrow> fl" where
  "fl_div (Fin a) (Fin b) = (if b = 0 then fl_inf (fl_sgn (Fin a)) else fl_round (a / b))"
| "fl_div NaN _ = NaN"
| "fl_div _ NaN = NaN"
| "fl_div (Fin a) _ = Fin 0"
| "fl_div a (Fin b) = fl_inf (fl_sgn a * (if b < 0 then -1 else 1))"
| "fl_div _ _ = NaN"

text \<open>
  The square root as pandas takes it of a variance (\<^verbatim>\<open>zsqrt\<close>): 0 for a negative argument.
\<close>

fun fl_sqrt :: "fl \<Rightarrow> fl" where
  "fl_sqrt (Fin a) = (if a < 0 then Fin 0 else fl_round (sqrt a))"
| "fl_sqrt NaN = NaN"
| "fl_sqrt NInf = Fin 0"
| "fl_sqrt PInf = PInf"

fun fl_abs :: "fl \<Rightarrow> fl" where
  "fl_abs NaN = NaN"
| "fl_abs NInf = PInf"
| "fl_abs PInf = PInf"
| "fl_abs (Fin a) = Fin \<bar>a\<bar>"

text \<open>\<^verbatim>\<open>a > b\<close> on doubles: false as soon as one side is not-a-number.\<close>

fun fl_gt :: "fl \<Rightarrow> fl \<Rightarrow> bool" where
  "fl_gt NaN _ = False"
| "fl_gt _ NaN = False"
| "fl_gt (Fin a) (Fin b) = (a > b)"
| "fl_gt PInf b = (b \<noteq> PInf)"
| "fl_gt NInf _ = False"
| "fl_gt (Fin a) b = (b = NInf)"

subsection \<open>Tables\<close>

text \<open>
  A timestamp of the time index, as the calendar reads it: year, month, day and the time
  of day in nanoseconds. They are compared in this order, which is the order of time.
\<close>

type_synonym timestamp = "nat \<times> nat \<times> nat \<times> nat"

text \<open>
  A pandas Series (the benchmark) and a DataFrame (the instruments, the ratio and the
  momentum): one shared index, and the columns by name in the order of the input. Every
  column of a DataFrame has one value per index entry (\<open>wf_table\<close>) and no two columns
  share a name.
\<close>

record series =
  s_index :: "timestamp list"
  s_values :: "fl list"

record table =
  t_index :: "timestamp list"
  t_columns :: "(string \<times> fl list) list"

definition wf_table :: "table \<Rightarrow> bool" where
  "wf_table df =
     (distinct (map fst (t_columns df)) \<and>
      list_all (\<lambda>c. length (snd c) = length (t_index df)) (t_columns df))"

text \<open>\<^verbatim>\<open>df.columns\<close> and \<^verbatim>\<open>df[t]\<close>; a missing column raises KeyError.\<close>

definition columns :: "table \<Rightarrow> string list" where
  "columns df = map fst (t_columns df)"

definition getcol :: "table \<Rightarrow> string \<Rightarrow> error + fl list" where
  "getcol df t = (case map_of (t_columns df) t of None \<Rightarrow> Inl KeyError | Some xs \<Rightarrow> Inr xs)"

text \<open>
  \<^verbatim>\<open>s[start:end]\<close> by position, for \<open>0 \<le> start\<close> and \<open>0 \<le> end\<close>; \<^verbatim>\<open>s.iloc[-k]\<close>, the
  \<open>k\<close>-th value from the end, which raises IndexError on a shorter sequence; and
  \<^verbatim>\<open>index[i]\<close> for \<open>0 \<le> i\<close>.
\<close>

definition slice :: "'a list \<Rightarrow> nat \<Rightarrow> nat \<Rightarrow> 'a list" where
  "slice xs start stop = drop start (take stop xs)"

definition iloc_back :: "'a list \<Rightarrow> nat \<Rightarrow> error + 'a" where
  "iloc_back xs k =
     (if 1 \<le> k \<and> k \<le> length xs then Inr (xs ! (length xs - k)) else Inl IndexError)"

definition index_at :: "'a list \<Rightarrow> nat \<Rightarrow> error + 'a" where
  "index_at xs i = (if i < length xs then Inr (xs ! i) else Inl IndexError)"

subsection \<open>Calendar dates as text\<close>

text \<open>
  \<^verbatim>\<open>strftime("%Y-%m-%d")\<close>: four digits of the year, two of the month, two of the day.
  The time of day does not show.
\<close>

definition digit :: "nat \<Rightarrow> char" where
  "digit d = ''0123456789'' ! (d mod 10)"

definition strftime_ymd :: "timestamp \<Rightarrow> string" where
  "strftime_ymd ts =
     (case ts of (y, m, d, _) \<Rightarrow>
        [digit (y div 1000), digit (y div 100), digit (y div 10), digit y] @ ''-'' @
        [digit (m div 10), digit m] @ ''-'' @ [digit (d div 10), digit d])"

subsection \<open>Traces, frames and slider steps\<close>

text \<open>
  The plotly objects, field by field: the \<^verbatim>\<open>marker\<close> dictionary, a \<^verbatim>\<open>go.Scatter\<close> trace, a
  frame (\<^verbatim>\<open>data\<close>, \<^verbatim>\<open>name\<close>) and a slider step (\<^verbatim>\<open>args\<close>, \<^verbatim>\<open>label\<close>, \<^verbatim>\<open>method\<close>). The
  \<^verbatim>\<open>args\<close> of a step are the list of frame names and, in the general case only, the
  animation options.
\<close>

record marker =
  mk_symbol :: "string list"
  mk_size :: "int list"
  mk_opacity :: int

record scatter =
  sc_x :: "fl list"
  sc_y :: "fl list"
  sc_mode :: string
  sc_name :: string
  sc_text :: "string option list"
  sc_textposition :: string
  sc_cliponaxis :: bool
  sc_marker :: marker

record frame =
  fr_data :: "scatter list"
  fr_name :: string

record animation =
  an_frame_duration :: int
  an_frame_redraw :: bool
  an_mode :: string
  an_transition_duration :: int

record step =
  st_frames :: "string list"
  st_options :: "animation option"
  st_label :: string
  st_method :: string

subsection \<open>The frame builder\<close>

text \<open>Lines 54 to 59: the bounds of the window at offset \<open>i\<close>, in a table of \<open>len\<close> rows.\<close>

definition window_bounds :: "int \<Rightarrow> int \<Rightarrow> int \<Rightarrow> int \<times> int" where
  "window_bounds len n i =
     (let start = len - n - i;
          stop = start + n;
          start = (if start < 0 then 0 else start);
          stop = (if stop > len then len else stop)
      in (start, stop))"

text \<open>Lines 73 to 82: the marker of the last point, from the step between the last two.\<close>

definition arrow_of :: "fl \<Rightarrow> fl \<Rightarrow> string" where
  "arrow_of dx dy =
     (if fl_gt (fl_abs dx) (fl_abs dy)
      then (if fl_gt dx (Fin 0) then ''triangle-right'' else ''triangle-left'')
      else (if fl_gt dy (Fin 0) then ''triangle-up'' else ''triangle-down''))"

definition arrow_symbol :: "fl list \<Rightarrow> fl list \<Rightarrow> error + string" where
  "arrow_symbol x y =
     (if length x > 1 then
        (case iloc_back x 1 of Inl e \<Rightarrow> Inl e | Inr x1 \<Rightarrow>
        (case iloc_back x 2 of Inl e \<Rightarrow> Inl e | Inr x2 \<Rightarrow>
        (case iloc_back y 1 of Inl e \<Rightarrow> Inl e | Inr y1 \<Rightarrow>
        (case iloc_back y 2 of Inl e \<Rightarrow> Inl e | Inr y2 \<Rightarrow>
           Inr (arrow_of (fl_sub x1 x2) (fl_sub y1 y2))))))
      else Inr ''triangle-up'')"

text \<open>Lines 69 to 98: the trace of instrument \<open>t\<close> over the rows \<open>start\<close> to \<open>stop - 1\<close>.\<close>

definition tail_trace :: "table \<Rightarrow> table \<Rightarrow> nat \<Rightarrow> nat \<Rightarrow> string \<Rightarrow> error + scatter" where
  "tail_trace rs_data rsm_data start stop t =
     (case getcol rs_data t of Inl e \<Rightarrow> Inl e | Inr xcol \<Rightarrow>
     (case getcol rsm_data t of Inl e \<Rightarrow> Inl e | Inr ycol \<Rightarrow>
        (let x = slice xcol start stop;
             y = slice ycol start stop;
             txt = replicate (length x - 1) None @ [Some t]
         in case arrow_symbol x y of Inl e \<Rightarrow> Inl e | Inr arrow \<Rightarrow>
              Inr \<lparr>sc_x = x, sc_y = y, sc_mode = ''lines+markers+text'', sc_name = t,
                   sc_text = txt, sc_textposition = ''middle right'', sc_cliponaxis = False,
                   sc_marker = \<lparr>mk_symbol = replicate (length x - 1) ''circle'' @ [arrow],
                                mk_size = replicate (length x - 1) 8 @ [14],
                                mk_opacity = 1\<rparr>\<rparr>)))"

text \<open>The loop over the instruments (line 68); the first exception ends it.\<close>

fun tail_traces :: "table \<Rightarrow> table \<Rightarrow> nat \<Rightarrow> nat \<Rightarrow> string list \<Rightarrow> error + scatter list" where
  "tail_traces rs_data rsm_data start stop [] = Inr []"
| "tail_traces rs_data rsm_data start stop (t # ts) =
     (case tail_trace rs_data rsm_data start stop t of Inl e \<Rightarrow> Inl e | Inr tr \<Rightarrow>
     (case tail_traces rs_data rsm_data start stop ts of Inl e \<Rightarrow> Inl e | Inr trs \<Rightarrow>
        Inr (tr # trs)))"

text \<open>Lines 63 to 65: the key of a frame, from the dates of its first and last row.\<close>

definition frame_key :: "table \<Rightarrow> nat \<Rightarrow> nat \<Rightarrow> error + string" where
  "frame_key rs_data start stop =
     (case index_at (t_index rs_data) start of Inl e \<Rightarrow> Inl e | Inr first \<Rightarrow>
     (case index_at (t_index rs_data) (stop - 1) of Inl e \<Rightarrow> Inl e | Inr final \<Rightarrow>
        Inr (strftime_ymd first @ '' - '' @ strftime_ymd final)))"

text \<open>Lines 100 to 108: the slider step of a frame of the general case.\<close>

definition tail_step :: "string \<Rightarrow> step" where
  "tail_step key =
     \<lparr>st_frames = [key],
      st_options = Some \<lparr>an_frame_duration = 0, an_frame_redraw = True,
                         an_mode = ''immediate'', an_transition_duration = 0\<rparr>,
      st_label = key, st_method = ''animate''\<rparr>"

text \<open>
  The body of the loop at offset \<open>i\<close> (lines 54 to 108): \<open>None\<close> where the source
  continues with the next offset, else the frame and the step it appends.
\<close>

definition frame_at :: "table \<Rightarrow> table \<Rightarrow> int \<Rightarrow> int \<Rightarrow> error + (frame \<times> step) option" where
  "frame_at rs_data rsm_data n i =
     (case window_bounds (int (length (t_index rs_data))) n i of (start, stop) \<Rightarrow>
        if stop - start < 1 then Inr None
        else
          (case frame_key rs_data (nat start) (nat stop) of Inl e \<Rightarrow> Inl e | Inr key \<Rightarrow>
          (case tail_traces rs_data rsm_data (nat start) (nat stop) (columns rs_data) of
             Inl e \<Rightarrow> Inl e
           | Inr traces \<Rightarrow> Inr (Some (\<lparr>fr_data = traces, fr_name = key\<rparr>, tail_step key)))))"

text \<open>\<^verbatim>\<open>range(total_frames, -1, -1)\<close>: from \<open>total_frames\<close> down to 0, empty below 0.\<close>

definition offsets :: "int \<Rightarrow> int list" where
  "offsets total_frames = rev [0..total_frames]"

text \<open>
  The loop \<^verbatim>\<open>for i in range(total_frames, -1, -1)\<close> over the offsets still to visit, with
  the two lists it appends to.
\<close>

fun frames_loop ::
  "table \<Rightarrow> table \<Rightarrow> int \<Rightarrow> int list \<Rightarrow> frame list \<times> step list \<Rightarrow> error + (frame list \<times> step list)"
where
  "frames_loop rs_data rsm_data n [] acc = Inr acc"
| "frames_loop rs_data rsm_data n (i # rest) (frames, slider_steps) =
     (case frame_at rs_data rsm_data n i of
        Inl e \<Rightarrow> Inl e
      | Inr None \<Rightarrow> frames_loop rs_data rsm_data n rest (frames, slider_steps)
      | Inr (Some (frame_data, s)) \<Rightarrow>
          frames_loop rs_data rsm_data n rest (frames @ [frame_data], slider_steps @ [s]))"

text \<open>Lines 31 to 50: the single frame of a table of fewer than two rows.\<close>

definition single_trace :: "table \<Rightarrow> table \<Rightarrow> string \<Rightarrow> error + scatter" where
  "single_trace rs_data rsm_data t =
     (case getcol rs_data t of Inl e \<Rightarrow> Inl e | Inr x \<Rightarrow>
     (case getcol rsm_data t of Inl e \<Rightarrow> Inl e | Inr y \<Rightarrow>
        Inr \<lparr>sc_x = x, sc_y = y, sc_mode = ''lines+markers+text'', sc_name = t,
             sc_text = replicate (length x - 1) None @ [Some t],
             sc_textposition = ''middle right'', sc_cliponaxis = False,
             sc_marker = \<lparr>mk_symbol = [''triangle-up''], mk_size = [14], mk_opacity = 1\<rparr>\<rparr>))"

fun single_traces :: "table \<Rightarrow> table \<Rightarrow> string list \<Rightarrow> error + scatter list" where
  "single_traces rs_data rsm_data [] = Inr []"
| "single_traces rs_data rsm_data (t # ts) =
     (case single_trace rs_data rsm_data t of Inl e \<Rightarrow> Inl e | Inr tr \<Rightarrow>
     (case single_traces rs_data rsm_data ts of Inl e \<Rightarrow> Inl e | Inr trs \<Rightarrow>
        Inr (tr # trs)))"

definition single_step :: "string \<Rightarrow> step" where
  "single_step key =
     \<lparr>st_frames = [key], st_options = None, st_label = key, st_method = ''animate''\<rparr>"

definition build_frames ::
  "table \<Rightarrow> table \<Rightarrow> int \<Rightarrow> int \<Rightarrow> error + (frame list \<times> step list)"
where
  "build_frames rs_data rsm_data tail_points total_frames =
     (if length (t_index rs_data) < 2 then
        (case single_traces rs_data rsm_data (columns rs_data) of
           Inl e \<Rightarrow> Inl e
         | Inr traces \<Rightarrow>
             Inr ([\<lparr>fr_data = traces, fr_name = ''SingleFrame''\<rparr>],
                  [single_step ''SingleFrame'']))
      else frames_loop rs_data rsm_data tail_points (offsets total_frames) ([], []))"

subsection \<open>What the frame builder is given, and what a window holds\<close>

text \<open>
  The two tables the frame builder is called with come from one run of the metrics
  engine: they have the same index and the same columns.
\<close>

definition same_shape :: "table \<Rightarrow> table \<Rightarrow> bool" where
  "same_shape rs_data rsm_data =
     (wf_table rs_data \<and> wf_table rsm_data \<and>
      t_index rsm_data = t_index rs_data \<and> columns rsm_data = columns rs_data)"

text \<open>\<^verbatim>\<open>len(df)\<close>: the number of rows.\<close>

definition nrows :: "table \<Rightarrow> int" where
  "nrows df = int (length (t_index df))"

text \<open>The values of a column that is there.\<close>

definition the_col :: "table \<Rightarrow> string \<Rightarrow> fl list" where
  "the_col df t = (case map_of (t_columns df) t of None \<Rightarrow> [] | Some xs \<Rightarrow> xs)"

text \<open>
  The classification of a step \<open>(dx, dy)\<close> in the words of the specification, read on the
  numbers the two doubles stand for: \<open>|dx| > |dy|\<close> (\<open>wider\<close>: an infinity is larger than
  every finite number and not larger than an infinity), \<open>dx > 0\<close> (\<open>gt_zero\<close>) and
  \<open>dx \<le> 0\<close> (\<open>le_zero\<close>). No comparison holds of not-a-number.
\<close>

definition wider :: "fl \<Rightarrow> fl \<Rightarrow> bool" where
  "wider dx dy =
     (case dx of
        NaN \<Rightarrow> False
      | Fin a \<Rightarrow> (case dy of Fin b \<Rightarrow> \<bar>b\<bar> < \<bar>a\<bar> | _ \<Rightarrow> False)
      | _ \<Rightarrow> (case dy of Fin b \<Rightarrow> True | _ \<Rightarrow> False))"

definition gt_zero :: "fl \<Rightarrow> bool" where
  "gt_zero d = (case d of Fin a \<Rightarrow> 0 < a | PInf \<Rightarrow> True | _ \<Rightarrow> False)"

definition le_zero :: "fl \<Rightarrow> bool" where
  "le_zero d = (case d of Fin a \<Rightarrow> a \<le> 0 | NInf \<Rightarrow> True | _ \<Rightarrow> False)"

definition direction :: "fl \<Rightarrow> fl \<Rightarrow> string" where
  "direction dx dy =
     (if wider dx dy \<and> gt_zero dx then ''triangle-right''
      else if wider dx dy \<and> le_zero dx then ''triangle-left''
      else if gt_zero dy then ''triangle-up''
      else ''triangle-down'')"

text \<open>The last value of a sequence less the one before it.\<close>

definition last_step :: "fl list \<Rightarrow> fl" where
  "last_step xs = fl_sub (last xs) (xs ! (length xs - 2))"

text \<open>
  The bounds of the window at offset \<open>i\<close> read off the source (\<open>win_start\<close>, \<open>win_stop\<close>:
  the end is taken from the start before it is clamped), and the end as the
  specification words it (\<open>spec_stop\<close>: from the clamped start).
\<close>

definition win_start :: "int \<Rightarrow> int \<Rightarrow> int \<Rightarrow> int" where
  "win_start len n i = max 0 (len - n - i)"

definition win_stop :: "int \<Rightarrow> int \<Rightarrow> int \<Rightarrow> int" where
  "win_stop len n i = min len ((len - n - i) + n)"

definition spec_stop :: "int \<Rightarrow> int \<Rightarrow> int \<Rightarrow> int" where
  "spec_stop len n i = min len (win_start len n i + n)"

definition skipped :: "int \<Rightarrow> int \<Rightarrow> int \<Rightarrow> bool" where
  "skipped len n i = (win_stop len n i - win_start len n i < 1)"

text \<open>The offsets of the loop that yield a frame, in the order of the loop.\<close>

definition emitted :: "int \<Rightarrow> int \<Rightarrow> int \<Rightarrow> int list" where
  "emitted len n total_frames = filter (\<lambda>i. \<not> skipped len n i) (offsets total_frames)"

text \<open>The key, the trace of an instrument and the frame of the rows \<open>start\<close> to \<open>stop - 1\<close>.\<close>

definition win_key :: "table \<Rightarrow> nat \<Rightarrow> nat \<Rightarrow> string" where
  "win_key rs_data start stop =
     strftime_ymd (t_index rs_data ! start) @ '' - '' @ strftime_ymd (t_index rs_data ! (stop - 1))"

definition win_trace :: "table \<Rightarrow> table \<Rightarrow> nat \<Rightarrow> nat \<Rightarrow> string \<Rightarrow> scatter" where
  "win_trace rs_data rsm_data start stop t =
     (let x = slice (the_col rs_data t) start stop;
          y = slice (the_col rsm_data t) start stop
      in \<lparr>sc_x = x, sc_y = y, sc_mode = ''lines+markers+text'', sc_name = t,
          sc_text = replicate (length x - 1) None @ [Some t],
          sc_textposition = ''middle right'', sc_cliponaxis = False,
          sc_marker =
            \<lparr>mk_symbol = replicate (length x - 1) ''circle'' @
               [if length x > 1 then arrow_of (last_step x) (last_step y) else ''triangle-up''],
             mk_size = replicate (length x - 1) 8 @ [14],
             mk_opacity = 1\<rparr>\<rparr>)"

definition win_frame :: "table \<Rightarrow> table \<Rightarrow> int \<Rightarrow> int \<Rightarrow> frame" where
  "win_frame rs_data rsm_data n i =
     (let len = int (length (t_index rs_data));
          start = nat (win_start len n i);
          stop = nat (win_stop len n i)
      in \<lparr>fr_data = map (win_trace rs_data rsm_data start stop) (columns rs_data),
          fr_name = win_key rs_data start stop\<rparr>)"

text \<open>The trace of an instrument in the single frame of a table of fewer than two rows.\<close>

definition lone_trace :: "table \<Rightarrow> table \<Rightarrow> string \<Rightarrow> scatter" where
  "lone_trace rs_data rsm_data t =
     \<lparr>sc_x = the_col rs_data t, sc_y = the_col rsm_data t,
      sc_mode = ''lines+markers+text'', sc_name = t,
      sc_text = replicate (length (the_col rs_data t) - 1) None @ [Some t],
      sc_textposition = ''middle right'', sc_cliponaxis = False,
      sc_marker = \<lparr>mk_symbol = [''triangle-up''], mk_size = [14], mk_opacity = 1\<rparr>\<rparr>"

subsection \<open>Example tables\<close>

text \<open>
  Two days and three instruments, whose last steps are the three steps the specification
  lists for the direction: \<open>(2, 1)\<close>, \<open>(-1, 5)\<close> and the tie \<open>(2, 2)\<close>.
\<close>

definition two_days_rs :: table where
  "two_days_rs =
     \<lparr>t_index = [(2024, 1, 2, 0), (2024, 1, 3, 0)],
      t_columns = [(''A'', [Fin 0, Fin 2]), (''B'', [Fin 0, Fin (-1)]), (''C'', [Fin 0, Fin 2])]\<rparr>"

definition two_days_rsm :: table where
  "two_days_rsm =
     \<lparr>t_index = [(2024, 1, 2, 0), (2024, 1, 3, 0)],
      t_columns = [(''A'', [Fin 0, Fin 1]), (''B'', [Fin 0, Fin 5]), (''C'', [Fin 0, Fin 2])]\<rparr>"

text \<open>
  Two days and eight instruments, one for each kind of last step: to the right; up; the tie
  \<open>(2, 2)\<close>; to the left from \<open>(5, 1)\<close> to \<open>(2, 2)\<close>; down; a step whose height
  \<open>1 - 2 powr -60\<close> rounds to 1, the width; and a step without a width or without a
  height, one of the four coordinates being not-a-number.
\<close>

definition steps_rs :: table where
  "steps_rs =
     \<lparr>t_index = [(2024, 1, 2, 0), (2024, 1, 3, 0)],
      t_columns =
        [(''A'', [Fin 0, Fin 2]), (''B'', [Fin 0, Fin (-1)]), (''C'', [Fin 0, Fin 2]),
         (''D'', [Fin 5, Fin 2]), (''E'', [Fin 1, Fin 1]), (''F'', [Fin 0, Fin 1]),
         (''G'', [NaN, Fin 1]), (''H'', [Fin 0, Fin 1])]\<rparr>"

definition steps_rsm :: table where
  "steps_rsm =
     \<lparr>t_index = [(2024, 1, 2, 0), (2024, 1, 3, 0)],
      t_columns =
        [(''A'', [Fin 0, Fin 1]), (''B'', [Fin 0, Fin 5]), (''C'', [Fin 0, Fin 2]),
         (''D'', [Fin 1, Fin 2]), (''E'', [Fin 3, Fin 1]), (''F'', [Fin (1 / 2 ^ 60), Fin 1]),
         (''G'', [Fin 0, Fin 1]), (''H'', [NaN, Fin 1])]\<rparr>"

text \<open>Five days and one instrument.\<close>

definition five_days :: table where
  "five_days =
     \<lparr>t_index = [(2024, 1, 1, 0), (2024, 1, 2, 0), (2024, 1, 3, 0), (2024, 1, 4, 0),
                 (2024, 1, 5, 0)],
      t_columns = [(''A'', [Fin 1, Fin 2, Fin 3, Fin 4, Fin 5])]\<rparr>"

text \<open>Two rows of the same day, an hour apart (the time of day is in nanoseconds).\<close>

definition same_day :: table where
  "same_day =
     \<lparr>t_index = [(2024, 1, 2, 32400000000000), (2024, 1, 2, 36000000000000)],
      t_columns = [(''A'', [Fin 1, Fin 2])]\<rparr>"

text \<open>One instrument and no row; one instrument and one row.\<close>

definition no_rows :: table where
  "no_rows = \<lparr>t_index = [], t_columns = [(''A'', [])]\<rparr>"

definition one_row :: table where
  "one_row = \<lparr>t_index = [(2024, 1, 2, 0)], t_columns = [(''A'', [Fin 100])]\<rparr>"

subsection \<open>The metrics engine\<close>

text \<open>
  \<^verbatim>\<open>calculate\<close> is five lines of pandas. The operations it calls are written out here as
  pandas documents them, on doubles.
\<close>

definition wf_series :: "series \<Rightarrow> bool" where
  "wf_series s = (length (s_values s) = length (s_index s))"

text \<open>
  \<^verbatim>\<open>tickers_df.div(benchmark_series, axis=0)\<close> aligns the two operands on their indices
  first. Equal indices are left as they are; otherwise both sides are reindexed to the
  union of the two indices (for increasing indices: their merge), a row that one side
  lacks being not-a-number there. Nothing is raised.
\<close>

fun outer_join :: "'a::linorder list \<Rightarrow> 'a list \<Rightarrow> 'a list" where
  "outer_join [] ys = ys"
| "outer_join xs [] = xs"
| "outer_join (x # xs) (y # ys) =
     (if x < y then x # outer_join xs (y # ys)
      else if y < x then y # outer_join (x # xs) ys
      else x # outer_join xs ys)"

definition reindex :: "timestamp list \<Rightarrow> fl list \<Rightarrow> timestamp list \<Rightarrow> fl list" where
  "reindex idx vals new_idx =
     map (\<lambda>t. case map_of (zip idx vals) t of None \<Rightarrow> NaN | Some v \<Rightarrow> v) new_idx"

definition div_axis0 :: "table \<Rightarrow> series \<Rightarrow> table" where
  "div_axis0 df s =
     (if t_index df = s_index s then
        \<lparr>t_index = t_index df,
         t_columns = map (\<lambda>(c, xs). (c, map2 fl_div xs (s_values s))) (t_columns df)\<rparr>
      else
        (let idx = outer_join (t_index df) (s_index s);
             den = reindex (s_index s) (s_values s) idx
         in \<lparr>t_index = idx,
             t_columns =
               map (\<lambda>(c, xs). (c, map2 fl_div (reindex (t_index df) xs idx) den))
                 (t_columns df)\<rparr>))"

text \<open>
  \<^verbatim>\<open>df.rolling(window)\<close> takes an integer window of 0 or more and raises ValueError for a
  negative one. At row \<open>t\<close> the window is the rows \<open>t + 1 - window\<close> to \<open>t\<close>, as far as they
  exist. An infinite value is taken for not-a-number, and a statistic is not-a-number
  unless the window holds \<open>window\<close> observations (the default \<^verbatim>\<open>min_periods\<close>) and at
  least one.
\<close>

definition rolling_window :: "int \<Rightarrow> error + nat" where
  "rolling_window window = (if window < 0 then Inl ValueError else Inr (nat window))"

fun finite_values :: "fl list \<Rightarrow> real list" where
  "finite_values [] = []"
| "finite_values (Fin a # xs) = a # finite_values xs"
| "finite_values (_ # xs) = finite_values xs"

definition window_at :: "nat \<Rightarrow> fl list \<Rightarrow> nat \<Rightarrow> fl list" where
  "window_at w xs t = drop (t + 1 - w) (take (t + 1) xs)"

text \<open>
  The two statistics of the observations of a window: the mean, and \<^verbatim>\<open>std(ddof=0)\<close>, the
  square root of the sum of the squared deviations from the mean over the number of
  observations. pandas accumulates the sum for the mean, and the mean and the sum of
  squared deviations for the variance (Welford's update), one observation after the other,
  in doubles. A window of equal observations has that observation for its mean and 0 for
  its deviation, whatever the sums come to. The model computes every window afresh and
  leaves out the compensation terms that pandas carries along the sums.
\<close>

definition all_same :: "real list \<Rightarrow> bool" where
  "all_same obs = (\<forall>x \<in> set obs. x = hd obs)"

definition mean :: "real list \<Rightarrow> fl" where
  "mean obs =
     (if all_same obs then Fin (hd obs)
      else fl_div (foldl fl_add (Fin 0) (map Fin obs)) (fl_round (real (length obs))))"

record moments =
  m_nobs :: nat
  m_mean :: fl
  m_ssqdm :: fl

definition add_var :: "moments \<Rightarrow> real \<Rightarrow> moments" where
  "add_var st val =
     (let nobs = m_nobs st + 1;
          delta = fl_sub (Fin val) (m_mean st);
          mean_x = fl_add (m_mean st) (fl_div delta (fl_round (real nobs)));
          ssqdm_x = fl_add (m_ssqdm st)
                      (fl_mul (fl_sub (Fin val) (m_mean st)) (fl_sub (Fin val) mean_x))
      in \<lparr>m_nobs = nobs, m_mean = mean_x, m_ssqdm = ssqdm_x\<rparr>)"

definition std0 :: "real list \<Rightarrow> fl" where
  "std0 obs =
     (if length obs = 1 \<or> all_same obs then Fin 0
      else fl_sqrt
             (fl_div (m_ssqdm (foldl add_var \<lparr>m_nobs = 0, m_mean = Fin 0, m_ssqdm = Fin 0\<rparr> obs))
                (fl_round (real (length obs)))))"

definition rolling :: "(real list \<Rightarrow> fl) \<Rightarrow> nat \<Rightarrow> fl list \<Rightarrow> fl list" where
  "rolling agg w xs =
     map (\<lambda>t. let obs = finite_values (window_at w xs t)
              in if w \<le> length obs \<and> 0 < length obs then agg obs else NaN)
       [0..<length xs]"

text \<open>
  \<^verbatim>\<open>pct_change(periods=k)\<close>: the value over the value \<open>k\<close> rows earlier, less 1. Before
  pandas 3.0 the default \<^verbatim>\<open>fill_method\<close> first replaces every not-a-number by the last
  value before it (\<open>pad\<close>); from 3.0 on nothing is filled. The repository pins no version,
  so the choice is a parameter.
\<close>

fun ffill_from :: "fl \<Rightarrow> fl list \<Rightarrow> fl list" where
  "ffill_from prev [] = []"
| "ffill_from prev (x # xs) =
     (if x = NaN then prev # ffill_from prev xs else x # ffill_from x xs)"

definition shift :: "nat \<Rightarrow> fl list \<Rightarrow> fl list" where
  "shift k xs = take (length xs) (replicate k NaN @ xs)"

definition pct_change :: "bool \<Rightarrow> nat \<Rightarrow> fl list \<Rightarrow> fl list" where
  "pct_change pad k xs =
     (let d = (if pad then ffill_from NaN xs else xs)
      in map2 (\<lambda>a b. fl_sub (fl_div a b) (Fin 1)) d (shift k d))"

text \<open>
  An operation on every column of a table, and an operation on the cells of two tables
  that have the same index and columns (as all the tables of \<^verbatim>\<open>calculate\<close> do).
\<close>

definition map_columns :: "(fl list \<Rightarrow> fl list) \<Rightarrow> table \<Rightarrow> table" where
  "map_columns f df =
     \<lparr>t_index = t_index df, t_columns = map (\<lambda>(c, xs). (c, f xs)) (t_columns df)\<rparr>"

definition zip_columns :: "(fl \<Rightarrow> fl \<Rightarrow> fl) \<Rightarrow> table \<Rightarrow> table \<Rightarrow> table" where
  "zip_columns f a b =
     \<lparr>t_index = t_index a,
      t_columns = map2 (\<lambda>(c, xs) (d, ys). (c, map2 f xs ys)) (t_columns a) (t_columns b)\<rparr>"

text \<open>A table over a given index, with columns of given names.\<close>

definition has_shape :: "timestamp list \<Rightarrow> string list \<Rightarrow> table \<Rightarrow> bool" where
  "has_shape idx names df =
     (t_index df = idx \<and> columns df = names \<and>
      list_all (\<lambda>c. length (snd c) = length idx) (t_columns df))"

text \<open>
  Lines 12 to 19. The first \<^verbatim>\<open>rolling(window)\<close> is called on line 13, after the division of
  line 12; no other call of \<^verbatim>\<open>calculate\<close> raises.
\<close>

definition calculate :: "bool \<Rightarrow> series \<Rightarrow> table \<Rightarrow> int \<Rightarrow> error + (table \<times> table)" where
  "calculate pad benchmark_series tickers_df window =
     (let rs = div_axis0 tickers_df benchmark_series
      in case rolling_window window of
           Inl e \<Rightarrow> Inl e
         | Inr w \<Rightarrow>
           (let rs_mean = map_columns (rolling mean w) rs;
                rs_std = map_columns (rolling std0 w) rs;
                rs_normalized =
                  map_columns (map (fl_add (Fin 100)))
                    (zip_columns fl_div (zip_columns fl_sub rs rs_mean) rs_std);
                roc =
                  map_columns (map (\<lambda>v. fl_mul v (Fin 100)))
                    (map_columns (pct_change pad 5) rs_normalized);
                rs_momentum =
                  map_columns (map (fl_add (Fin 101)))
                    (zip_columns fl_div
                       (zip_columns fl_sub roc (map_columns (rolling mean w) roc))
                       (map_columns (rolling std0 w) roc))
            in Inr (rs_normalized, rs_momentum)))"

text \<open>
  What lines 15 and 18 come to for one column \<open>xs\<close>: the base \<open>k\<close> plus the deviation of
  each value from the rolling mean, in rolling standard deviations. And the rate of change
  of line 17 for one column.
\<close>

definition zscore :: "real \<Rightarrow> nat \<Rightarrow> fl list \<Rightarrow> fl list" where
  "zscore k w xs =
     map (fl_add (Fin k)) (map2 fl_div (map2 fl_sub xs (rolling mean w xs)) (rolling std0 w xs))"

definition roc_of :: "bool \<Rightarrow> fl list \<Rightarrow> fl list" where
  "roc_of pad xs = map (\<lambda>v. fl_mul v (Fin 100)) (pct_change pad 5 xs)"

text \<open>A price that is a finite number other than 0.\<close>

definition priced :: "fl \<Rightarrow> bool" where
  "priced v = (case v of Fin a \<Rightarrow> a \<noteq> 0 | _ \<Rightarrow> False)"

text \<open>
  Example inputs: a benchmark and an instrument of the same two prices; the two with a
  price of 0 on the first day; a benchmark quoted on another day than the instrument; a
  benchmark of 1 throughout with an instrument that rises from 1 to 7, and with one
  whose second price is \<open>2 powr -600\<close>.
\<close>

definition bench_two :: series where
  "bench_two = \<lparr>s_index = [(2024, 1, 2, 0), (2024, 1, 3, 0)], s_values = [Fin 50, Fin 40]\<rparr>"

definition tickers_two :: table where
  "tickers_two =
     \<lparr>t_index = [(2024, 1, 2, 0), (2024, 1, 3, 0)], t_columns = [(''A'', [Fin 50, Fin 40])]\<rparr>"

definition bench_zero :: series where
  "bench_zero = \<lparr>s_index = [(2024, 1, 2, 0), (2024, 1, 3, 0)], s_values = [Fin 0, Fin 40]\<rparr>"

definition tickers_zero :: table where
  "tickers_zero =
     \<lparr>t_index = [(2024, 1, 2, 0), (2024, 1, 3, 0)], t_columns = [(''A'', [Fin 0, Fin 40])]\<rparr>"

definition bench_other_day :: series where
  "bench_other_day = \<lparr>s_index = [(2024, 1, 4, 0)], s_values = [Fin 50]\<rparr>"






section \<open>Properties\<close>

subsection \<open>Rounding to a double\<close>

lemma round_even_of_int: "round_even (of_int m) = m"
  by (simp add: round_even_def)

lemma round_even_error: "\<bar>of_int (round_even r) - r\<bar> \<le> 1 / 2"
  unfolding round_even_def Let_def by (simp; linarith)


lemma fl_round_not_nan: "fl_round x \<noteq> NaN"
  by (simp add: fl_round_def Let_def)

lemma ulp_pos: "0 < ulp x"
  by (simp add: ulp_def)

lemma floor_log2_eq:
  assumes "2 powr of_int k \<le> \<bar>x\<bar>" and "\<bar>x\<bar> < 2 powr of_int (k + 1)"
  shows "\<lfloor>log 2 \<bar>x\<bar>\<rfloor> = k"
proof -
  have pos: "0 < \<bar>x\<bar>" using assms(1) by (smt (verit) powr_gt_zero)
  have "of_int k \<le> log 2 \<bar>x\<bar>" using assms(1) pos by (simp add: le_log_iff)
  moreover have "log 2 \<bar>x\<bar> < of_int k + 1" using assms(2) pos by (simp add: log_less_iff)
  ultimately show ?thesis by linarith
qed

lemma floor_log2_upper:
  assumes "x \<noteq> 0" and "\<bar>x\<bar> < 2 powr of_int k"
  shows "\<lfloor>log 2 \<bar>x\<bar>\<rfloor> < k"
proof -
  have "log 2 \<bar>x\<bar> < of_int k" using assms by (simp add: log_less_iff)
  then show ?thesis by linarith
qed

text \<open>The rounded value is within half a spacing of the exact one.\<close>

lemma fl_round_error:
  assumes "fl_round x = Fin y"
  shows "\<bar>y - x\<bar> \<le> ulp x / 2"
proof (cases "x = 0")
  case True
  with assms ulp_pos[of x] show ?thesis by (simp add: fl_round_def)
next
  case False
  with assms have y: "y = of_int (round_even (x / ulp x)) * ulp x"
    by (simp add: fl_round_def Let_def split: if_splits)
  have "y - x = (of_int (round_even (x / ulp x)) - x / ulp x) * ulp x"
    using ulp_pos[of x] by (simp add: y left_diff_distrib)
  then have "\<bar>y - x\<bar> = \<bar>of_int (round_even (x / ulp x)) - x / ulp x\<bar> * ulp x"
    using ulp_pos[of x] by (simp add: abs_mult)
  also have "\<dots> \<le> 1 / 2 * ulp x"
    using round_even_error[of "x / ulp x"] ulp_pos[of x] by (intro mult_right_mono) simp_all
  finally show ?thesis by simp
qed

text \<open>
  A number \<open>m * 2 powr e\<close> with \<open>|m| < 2 ^ 53\<close> and \<open>e \<ge> -1074\<close>, below \<open>2 ^ 1024\<close>, is a double:
  rounding leaves it as it is.
\<close>

lemma fl_round_representable:
  assumes m: "\<bar>m\<bar> < 2 ^ 53" and e: "- 1074 \<le> e" and x: "x = of_int m * 2 powr of_int e"
    and big: "\<bar>x\<bar> < 2 ^ 1024"
  shows "fl_round x = Fin x"
proof (cases "x = 0")
  case True
  then show ?thesis by (simp add: fl_round_def)
next
  case False
  define E where "E = max \<lfloor>log 2 \<bar>x\<bar>\<rfloor> (- 1022) - 52"
  have "\<bar>x\<bar> = of_int \<bar>m\<bar> * 2 powr of_int e" by (simp add: x abs_mult)
  also have "\<dots> < 2 ^ 53 * 2 powr of_int e"
    using m by (intro mult_strict_right_mono) (simp_all add: of_int_less_numeral_power_cancel_iff)
  also have "\<dots> = 2 powr of_int (53 + e)"
    by (simp add: powr_add powr_realpow[symmetric])
  finally have "\<lfloor>log 2 \<bar>x\<bar>\<rfloor> < 53 + e" using False by (rule floor_log2_upper[rotated])
  with e have Ee: "E \<le> e" by (simp add: E_def)
  then obtain k where k: "e = E + int k" by (metis zle_iff_zadd)
  have u: "ulp x = 2 powr of_int E" by (simp add: ulp_def E_def)
  have "x / ulp x = x / 2 powr of_int E" by (simp only: u)
  also have "\<dots> = of_int m * 2 powr (of_int e - of_int E)"
    by (simp add: x powr_diff)
  also have "\<dots> = of_int (m * 2 ^ k)"
    by (simp add: k powr_realpow)
  finally have q: "x / ulp x = of_int (m * 2 ^ k)" .
  have "of_int (round_even (x / ulp x)) * ulp x = x"
    unfolding q round_even_of_int using q ulp_pos[of x]
    by (metis nonzero_divide_eq_eq less_numeral_extra(3))
  with False big show ?thesis by (simp add: fl_round_def Let_def)
qed

lemma fl_round_int: "\<bar>m\<bar> < 2 ^ 53 \<Longrightarrow> fl_round (of_int m) = Fin (of_int m)"
proof -
  assume m: "\<bar>m\<bar> < 2 ^ 53"
  then have "\<bar>of_int m :: real\<bar> < 2 ^ 53"
    by (metis of_int_abs of_int_less_numeral_power_cancel_iff)
  also have "\<dots> < 2 ^ 1024" by simp
  finally show ?thesis
    using fl_round_representable[OF m, of 0 "of_int m"] by simp
qed

lemma fl_round_0: "fl_round 0 = Fin 0"
  by (simp add: fl_round_def)

lemma fl_round_1: "fl_round 1 = Fin 1"
  using fl_round_int[of 1] by simp

lemma fl_round_numeral:
  "(numeral k :: int) < 2 ^ 53 \<Longrightarrow> fl_round (numeral k) = Fin (numeral k)"
  using fl_round_int[of "numeral k"] by simp

lemma fl_round_neg_numeral:
  "(numeral k :: int) < 2 ^ 53 \<Longrightarrow> fl_round (- numeral k) = Fin (- numeral k)"
  using fl_round_int[of "- numeral k"] by simp

lemma fl_round_neg_1: "fl_round (- 1) = Fin (- 1)"
  using fl_round_int[of "- 1"] by simp

lemmas fl_round_ints =
  fl_round_0 fl_round_1 fl_round_neg_1 fl_round_numeral fl_round_neg_numeral



text \<open>
  \<open>1 - 2 powr -60\<close> lies between two doubles, \<open>1 - 2 powr -53\<close> and 1, and nearer to 1.
\<close>

lemma fl_round_below_1: "fl_round (1 - 1 / 2 ^ 60) = Fin 1"
proof -
  define x :: real where "x = 1 - 1 / 2 ^ 60"
  have pos: "0 < x" "x \<noteq> 0" by (simp_all add: x_def)
  have "\<lfloor>log 2 \<bar>x\<bar>\<rfloor> = - 1"
    by (rule floor_log2_eq) (simp_all add: powr_minus x_def)
  then have u: "ulp x = 1 / 2 ^ 53"
    by (simp add: ulp_def powr_minus powr_realpow[symmetric] inverse_eq_divide)
  have q: "x / ulp x = 2 ^ 53 - 1 / 2 ^ 7" unfolding u by (simp add: x_def)
  have "\<lfloor>(2 ^ 53 - 1 / 2 ^ 7 :: real)\<rfloor> = 2 ^ 53 - 1"
    by (rule floor_unique) simp_all
  then have "round_even (x / ulp x) = 2 ^ 53"
    unfolding q by (simp add: round_even_def Let_def)
  then have "fl_round x = Fin 1" using pos by (simp add: fl_round_def Let_def u)
  then show ?thesis by (simp only: x_def)
qed

subsection \<open>The frame builder raises nothing on tables of one shape\<close>

lemma window_bounds_eq: "window_bounds len n i = (win_start len n i, win_stop len n i)"
  by (auto simp: window_bounds_def win_start_def win_stop_def Let_def)

lemma win_stop_offset: "0 \<le> i \<Longrightarrow> win_stop len n i = len - i"
  by (simp add: win_stop_def)

lemma getcol_the_col: "t \<in> set (columns df) \<Longrightarrow> getcol df t = Inr (the_col df t)"
  by (auto simp: getcol_def the_col_def columns_def map_of_eq_None_iff split: option.splits)

lemma length_the_col:
  "wf_table df \<Longrightarrow> t \<in> set (columns df) \<Longrightarrow> length (the_col df t) = length (t_index df)"
  by (auto simp: wf_table_def the_col_def columns_def list_all_iff map_of_eq_None_iff
      split: option.splits dest!: map_of_SomeD)

lemma length_slice: "length (slice xs start stop) = min stop (length xs) - start"
  by (simp add: slice_def)

lemma arrow_symbol_ok:
  assumes eq: "length y = length x"
  shows "arrow_symbol x y =
     Inr (if length x > 1 then arrow_of (last_step x) (last_step y) else ''triangle-up'')"
proof (cases "length x > 1")
  case True
  with eq have ne: "x \<noteq> []" "y \<noteq> []" by auto
  show ?thesis
    using True eq last_conv_nth[OF ne(1)] last_conv_nth[OF ne(2)]
    by (simp add: arrow_symbol_def iloc_back_def last_step_def)
next
  case False
  then show ?thesis by (simp add: arrow_symbol_def)
qed

lemma same_shape_lengths:
  assumes "same_shape rs rsm" "t \<in> set (columns rs)"
  shows "length (the_col rs t) = length (t_index rs)"
    and "length (the_col rsm t) = length (t_index rs)"
    and "getcol rs t = Inr (the_col rs t)"
    and "getcol rsm t = Inr (the_col rsm t)"
proof -
  from assms have t2: "t \<in> set (columns rsm)" by (simp add: same_shape_def)
  from assms have wf: "wf_table rs" "wf_table rsm" "t_index rsm = t_index rs"
    by (simp_all add: same_shape_def)
  show "length (the_col rs t) = length (t_index rs)" by (rule length_the_col[OF wf(1) assms(2)])
  show "length (the_col rsm t) = length (t_index rs)" using length_the_col[OF wf(2) t2] wf(3) by simp
  show "getcol rs t = Inr (the_col rs t)" by (rule getcol_the_col[OF assms(2)])
  show "getcol rsm t = Inr (the_col rsm t)" by (rule getcol_the_col[OF t2])
qed

lemma tail_trace_ok:
  assumes "same_shape rs rsm" "t \<in> set (columns rs)"
  shows "tail_trace rs rsm start stop t = Inr (win_trace rs rsm start stop t)"
proof -
  note sl = same_shape_lengths[OF assms]
  have len: "length (slice (the_col rsm t) start stop) = length (slice (the_col rs t) start stop)"
    using sl(1,2) by (simp add: length_slice)
  show ?thesis
    using sl(3,4) arrow_symbol_ok[OF len]
    by (simp add: tail_trace_def win_trace_def Let_def)
qed

lemma tail_traces_ok:
  assumes "same_shape rs rsm"
  shows "set ts \<subseteq> set (columns rs) \<Longrightarrow>
    tail_traces rs rsm start stop ts = Inr (map (win_trace rs rsm start stop) ts)"
  by (induction ts) (simp_all add: tail_trace_ok[OF assms])

lemma frame_key_ok:
  "start < stop \<Longrightarrow> stop \<le> length (t_index rs) \<Longrightarrow>
   frame_key rs start stop = Inr (win_key rs start stop)"
  by (simp add: frame_key_def index_at_def win_key_def)

lemma win_bounds_range:
  "\<not> skipped len n i \<Longrightarrow>
   0 \<le> win_start len n i \<and> win_start len n i < win_stop len n i \<and> win_stop len n i \<le> len"
  by (auto simp: skipped_def win_start_def win_stop_def)

lemma frame_at_ok:
  assumes "same_shape rs rsm"
  shows "frame_at rs rsm n i =
    Inr (if skipped (int (length (t_index rs))) n i then None
         else Some (win_frame rs rsm n i, tail_step (fr_name (win_frame rs rsm n i))))"
proof (cases "skipped (int (length (t_index rs))) n i")
  case True
  then show ?thesis by (simp add: frame_at_def window_bounds_eq skipped_def)
next
  case False
  from win_bounds_range[OF False]
  have "nat (win_start (int (length (t_index rs))) n i) < nat (win_stop (int (length (t_index rs))) n i)"
       "nat (win_stop (int (length (t_index rs))) n i) \<le> length (t_index rs)"
    by auto
  from frame_key_ok[OF this] tail_traces_ok[OF assms subset_refl] False
  show ?thesis
    by (simp add: frame_at_def window_bounds_eq skipped_def win_frame_def Let_def)
qed

lemma frames_loop_ok:
  assumes "same_shape rs rsm"
  shows "frames_loop rs rsm n is (fs, ss) =
    Inr (fs @ map (win_frame rs rsm n) (filter (\<lambda>i. \<not> skipped (int (length (t_index rs))) n i) is),
         ss @ map (\<lambda>i. tail_step (fr_name (win_frame rs rsm n i)))
                (filter (\<lambda>i. \<not> skipped (int (length (t_index rs))) n i) is))"
  by (induction "is" arbitrary: fs ss) (simp_all add: frame_at_ok[OF assms])

lemma build_frames_general:
  assumes "same_shape rs rsm" "2 \<le> length (t_index rs)"
  shows "build_frames rs rsm n total_frames =
     Inr (map (win_frame rs rsm n) (emitted (int (length (t_index rs))) n total_frames),
          map (\<lambda>i. tail_step (fr_name (win_frame rs rsm n i)))
              (emitted (int (length (t_index rs))) n total_frames))"
  using assms(2) frames_loop_ok[OF assms(1)] by (simp add: build_frames_def emitted_def)

lemma single_trace_ok:
  assumes "same_shape rs rsm" "t \<in> set (columns rs)"
  shows "single_trace rs rsm t = Inr (lone_trace rs rsm t)"
  using same_shape_lengths(3,4)[OF assms] by (simp add: single_trace_def lone_trace_def)

lemma single_traces_ok:
  assumes "same_shape rs rsm"
  shows "set ts \<subseteq> set (columns rs) \<Longrightarrow>
    single_traces rs rsm ts = Inr (map (lone_trace rs rsm) ts)"
  by (induction ts) (simp_all add: single_trace_ok[OF assms])

lemma build_frames_single:
  assumes "same_shape rs rsm" "length (t_index rs) < 2"
  shows "build_frames rs rsm n total_frames =
     Inr ([\<lparr>fr_data = map (lone_trace rs rsm) (columns rs), fr_name = ''SingleFrame''\<rparr>],
          [single_step ''SingleFrame''])"
  using assms(2) single_traces_ok[OF assms(1) subset_refl] by (simp add: build_frames_def)

subsection \<open>Direction\<close>

lemma arrow_of_direction: "arrow_of dx dy = direction dx dy"
  by (cases dx; cases dy)
     (simp_all add: arrow_of_def direction_def wider_def gt_zero_def le_zero_def)

lemma win_trace_marker:
  "last (mk_symbol (sc_marker (win_trace rs rsm start stop t))) =
     (if 2 \<le> length (sc_x (win_trace rs rsm start stop t))
      then direction (last_step (sc_x (win_trace rs rsm start stop t)))
                     (last_step (sc_y (win_trace rs rsm start stop t)))
      else ''triangle-up'')"
  by (simp add: win_trace_def Let_def arrow_of_direction)

lemma last_step_finite:
  "last xs = Fin a \<Longrightarrow> xs ! (length xs - 2) = Fin b \<Longrightarrow> last_step xs = fl_round (a - b)"
  by (simp add: last_step_def)

lemma two_days_shape: "same_shape two_days_rs two_days_rsm"
  by (simp add: same_shape_def wf_table_def two_days_rs_def two_days_rsm_def columns_def)

lemma offsets_0: "offsets 0 = [0]"
  by (simp add: offsets_def upto.simps)

lemma steps_shape: "same_shape steps_rs steps_rsm"
  by (simp add: same_shape_def wf_table_def steps_rs_def steps_rsm_def columns_def)

lemmas fl_round_below_1_num = fl_round_below_1[simplified]

lemma steps_markers:
  "map_sum id (\<lambda>r. map (\<lambda>f. map (\<lambda>tr. last (mk_symbol (sc_marker tr))) (fr_data f)) (fst r))
     (build_frames steps_rs steps_rsm 2 0) =
   Inr [[''triangle-right'', ''triangle-up'', ''triangle-up'', ''triangle-left'',
         ''triangle-down'', ''triangle-up'', ''triangle-up'', ''triangle-down'']]"
  using offsets_0
  by (simp add: build_frames_def steps_rs_def steps_rsm_def frame_at_def window_bounds_def
      Let_def frame_key_def index_at_def columns_def tail_trace_def getcol_def slice_def
      arrow_symbol_def iloc_back_def arrow_of_def strftime_ymd_def digit_def tail_step_def
      fl_round_ints fl_round_below_1_num)

text \<open>
  Claim C4. In every frame the builder emits, the marker of an instrument's last point is
  chosen from the step \<open>(dx, dy)\<close> between its last two points, \<open>dx = x[-1] - x[-2]\<close> and
  \<open>dy = y[-1] - y[-2]\<close> as the doubles the two subtractions give (for finite points: the
  exact differences, rounded): right when \<open>|dx| > |dy|\<close> and \<open>dx > 0\<close>, left when
  \<open>|dx| > |dy|\<close> and \<open>dx \<le> 0\<close>, else up when \<open>dy > 0\<close> and down otherwise; a window of
  fewer than two points gets the up marker. A tie \<open>|dx| = |dy|\<close> is settled by \<open>dy\<close>
  alone.
\<close>

theorem direction_marker:
  assumes "same_shape rs_data rsm_data"
  shows "(\<exists>frames steps. build_frames rs_data rsm_data n total_frames = Inr (frames, steps) \<and>
           (\<forall>f \<in> set frames. \<forall>tr \<in> set (fr_data f).
              last (mk_symbol (sc_marker tr)) =
                (if 2 \<le> length (sc_x tr)
                 then direction (last_step (sc_x tr)) (last_step (sc_y tr))
                 else ''triangle-up'') \<and>
              (\<forall>x1 x2 y1 y2.
                 2 \<le> length (sc_x tr) \<and>
                 last (sc_x tr) = Fin x1 \<and> sc_x tr ! (length (sc_x tr) - 2) = Fin x2 \<and>
                 last (sc_y tr) = Fin y1 \<and> sc_y tr ! (length (sc_y tr) - 2) = Fin y2 \<longrightarrow>
                 last (mk_symbol (sc_marker tr)) =
                   direction (fl_round (x1 - x2)) (fl_round (y1 - y2))))) \<and>
         (\<forall>a b. \<bar>a\<bar> = \<bar>b\<bar> \<longrightarrow>
            direction (Fin a) (Fin b) = (if 0 < b then ''triangle-up'' else ''triangle-down''))"
proof (intro conjI allI impI)
  have fin: "\<forall>x1 x2 y1 y2.
                 2 \<le> length (sc_x tr) \<and>
                 last (sc_x tr) = Fin x1 \<and> sc_x tr ! (length (sc_x tr) - 2) = Fin x2 \<and>
                 last (sc_y tr) = Fin y1 \<and> sc_y tr ! (length (sc_y tr) - 2) = Fin y2 \<longrightarrow>
                 last (mk_symbol (sc_marker tr)) =
                   direction (fl_round (x1 - x2)) (fl_round (y1 - y2))"
    if "last (mk_symbol (sc_marker tr)) =
                (if 2 \<le> length (sc_x tr)
                 then direction (last_step (sc_x tr)) (last_step (sc_y tr))
                 else ''triangle-up'')" for tr
    using that by (auto simp: last_step_finite)
  have each: "\<forall>tr \<in> set trs.
              last (mk_symbol (sc_marker tr)) =
                (if 2 \<le> length (sc_x tr)
                 then direction (last_step (sc_x tr)) (last_step (sc_y tr))
                 else ''triangle-up'') \<and>
              (\<forall>x1 x2 y1 y2.
                 2 \<le> length (sc_x tr) \<and>
                 last (sc_x tr) = Fin x1 \<and> sc_x tr ! (length (sc_x tr) - 2) = Fin x2 \<and>
                 last (sc_y tr) = Fin y1 \<and> sc_y tr ! (length (sc_y tr) - 2) = Fin y2 \<longrightarrow>
                 last (mk_symbol (sc_marker tr)) =
                   direction (fl_round (x1 - x2)) (fl_round (y1 - y2)))"
    if "\<forall>tr \<in> set trs. last (mk_symbol (sc_marker tr)) =
                (if 2 \<le> length (sc_x tr)
                 then direction (last_step (sc_x tr)) (last_step (sc_y tr))
                 else ''triangle-up'')" for trs
    using that fin by blast
  show "\<exists>frames steps. build_frames rs_data rsm_data n total_frames = Inr (frames, steps) \<and>
           (\<forall>f \<in> set frames. \<forall>tr \<in> set (fr_data f).
              last (mk_symbol (sc_marker tr)) =
                (if 2 \<le> length (sc_x tr)
                 then direction (last_step (sc_x tr)) (last_step (sc_y tr))
                 else ''triangle-up'') \<and>
              (\<forall>x1 x2 y1 y2.
                 2 \<le> length (sc_x tr) \<and>
                 last (sc_x tr) = Fin x1 \<and> sc_x tr ! (length (sc_x tr) - 2) = Fin x2 \<and>
                 last (sc_y tr) = Fin y1 \<and> sc_y tr ! (length (sc_y tr) - 2) = Fin y2 \<longrightarrow>
                 last (mk_symbol (sc_marker tr)) =
                   direction (fl_round (x1 - x2)) (fl_round (y1 - y2))))"
  proof (cases "length (t_index rs_data) < 2")
    case True
    have "\<forall>tr \<in> set (map (lone_trace rs_data rsm_data) (columns rs_data)).
            last (mk_symbol (sc_marker tr)) =
                (if 2 \<le> length (sc_x tr)
                 then direction (last_step (sc_x tr)) (last_step (sc_y tr))
                 else ''triangle-up'')"
      using True same_shape_lengths(1)[OF assms] by (auto simp: lone_trace_def)
    from each[OF this] show ?thesis
      unfolding build_frames_single[OF assms True] by force
  next
    case False
    then have two: "2 \<le> length (t_index rs_data)" by simp
    have "\<forall>tr \<in> set (fr_data f).
            last (mk_symbol (sc_marker tr)) =
                (if 2 \<le> length (sc_x tr)
                 then direction (last_step (sc_x tr)) (last_step (sc_y tr))
                 else ''triangle-up'')"
      if "f \<in> set (map (win_frame rs_data rsm_data n)
                     (emitted (int (length (t_index rs_data))) n total_frames))" for f
      using that by (auto simp: win_frame_def Let_def win_trace_marker)
    from each[OF this] show ?thesis
      unfolding build_frames_general[OF assms two] by blast
  qed
next
  fix a b :: real
  assume "\<bar>a\<bar> = \<bar>b\<bar>"
  then show "direction (Fin a) (Fin b) = (if 0 < b then ''triangle-up'' else ''triangle-down'')"
    by (simp add: direction_def wider_def gt_zero_def)
qed

theorem direction_marker_witness:
  "same_shape steps_rs steps_rsm \<and>
   (\<exists>frames steps. build_frames steps_rs steps_rsm 2 0 = Inr (frames, steps) \<and>
      map (\<lambda>f. map (\<lambda>tr. last (mk_symbol (sc_marker tr))) (fr_data f)) frames =
        [[''triangle-right'', ''triangle-up'', ''triangle-up'', ''triangle-left'',
          ''triangle-down'', ''triangle-up'', ''triangle-up'', ''triangle-down'']] \<and>
      (\<forall>f \<in> set frames. \<forall>tr \<in> set (fr_data f).
         last (mk_symbol (sc_marker tr)) =
           direction (last_step (sc_x tr)) (last_step (sc_y tr)))) \<and>
   direction (fl_round (2 - 0)) (fl_round (1 - 0)) = ''triangle-right'' \<and>
   direction (fl_round (- 1 - 0)) (fl_round (5 - 0)) = ''triangle-up'' \<and>
   direction (fl_round (2 - 0)) (fl_round (2 - 0)) = ''triangle-up'' \<and>
   direction (fl_round (2 - 5)) (fl_round (2 - 1)) = ''triangle-left'' \<and>
   direction (fl_round (1 - 1)) (fl_round (1 - 3)) = ''triangle-down'' \<and>
   direction (fl_round (1 - 0)) (fl_round (1 - 1 / 2 ^ 60)) = ''triangle-up'' \<and>
   direction (fl_sub (Fin 1) NaN) (fl_sub (Fin 1) (Fin 0)) = ''triangle-up'' \<and>
   direction (fl_sub (Fin 1) (Fin 0)) (fl_sub (Fin 1) NaN) = ''triangle-down'' \<and>
   direction (Fin 2) (Fin (- 2)) = ''triangle-down''"
proof -
  from direction_marker[OF steps_shape, of 2 0]
  obtain frames steps where
    b: "build_frames steps_rs steps_rsm 2 0 = Inr (frames, steps)" and
    m: "\<forall>f \<in> set frames. \<forall>tr \<in> set (fr_data f).
          last (mk_symbol (sc_marker tr)) =
                (if 2 \<le> length (sc_x tr)
                 then direction (last_step (sc_x tr)) (last_step (sc_y tr))
                 else ''triangle-up'')"
    by blast
  from b steps_markers have
    s: "map (\<lambda>f. map (\<lambda>tr. last (mk_symbol (sc_marker tr))) (fr_data f)) frames =
        [[''triangle-right'', ''triangle-up'', ''triangle-up'', ''triangle-left'',
          ''triangle-down'', ''triangle-up'', ''triangle-up'', ''triangle-down'']]"
    by simp
  have two: "\<forall>f \<in> set frames. \<forall>tr \<in> set (fr_data f). 2 \<le> length (sc_x tr)"
    using b offsets_0
    by (auto simp: build_frames_def steps_rs_def steps_rsm_def frame_at_def window_bounds_def
      Let_def frame_key_def index_at_def columns_def tail_trace_def getcol_def slice_def
      arrow_symbol_def iloc_back_def tail_step_def)
  from m two have
    d: "\<forall>f \<in> set frames. \<forall>tr \<in> set (fr_data f).
         last (mk_symbol (sc_marker tr)) =
           direction (last_step (sc_x tr)) (last_step (sc_y tr))"
    by simp
  have e: "direction (fl_round (2 - 0)) (fl_round (1 - 0)) = ''triangle-right''"
    "direction (fl_round (- 1 - 0)) (fl_round (5 - 0)) = ''triangle-up''"
    "direction (fl_round (2 - 0)) (fl_round (2 - 0)) = ''triangle-up''"
    "direction (fl_round (2 - 5)) (fl_round (2 - 1)) = ''triangle-left''"
    "direction (fl_round (1 - 1)) (fl_round (1 - 3)) = ''triangle-down''"
    "direction (fl_round (1 - 0)) (fl_round (1 - 1 / 2 ^ 60)) = ''triangle-up''"
    "direction (fl_sub (Fin 1) NaN) (fl_sub (Fin 1) (Fin 0)) = ''triangle-up''"
    "direction (fl_sub (Fin 1) (Fin 0)) (fl_sub (Fin 1) NaN) = ''triangle-down''"
    "direction (Fin 2) (Fin (- 2)) = ''triangle-down''"
    by (simp_all add: direction_def wider_def gt_zero_def le_zero_def fl_round_ints
        fl_round_below_1_num)
  from b s d have ex:
    "\<exists>frames steps. build_frames steps_rs steps_rsm 2 0 = Inr (frames, steps) \<and>
      map (\<lambda>f. map (\<lambda>tr. last (mk_symbol (sc_marker tr))) (fr_data f)) frames =
        [[''triangle-right'', ''triangle-up'', ''triangle-up'', ''triangle-left'',
          ''triangle-down'', ''triangle-up'', ''triangle-up'', ''triangle-down'']] \<and>
      (\<forall>f \<in> set frames. \<forall>tr \<in> set (fr_data f).
         last (mk_symbol (sc_marker tr)) =
           direction (last_step (sc_x tr)) (last_step (sc_y tr)))"
    by (intro exI[of _ frames] exI[of _ steps] conjI)
  show ?thesis by (intro conjI steps_shape ex e)
qed

subsection \<open>The single frame of a short table\<close>

lemma one_row_shape: "same_shape one_row one_row"
  by (simp add: same_shape_def wf_table_def one_row_def columns_def)

lemma one_row_frames:
  "build_frames one_row one_row 3 10 =
     Inr ([\<lparr>fr_data =
              [\<lparr>sc_x = [Fin 100], sc_y = [Fin 100], sc_mode = ''lines+markers+text'',
                sc_name = ''A'', sc_text = [Some ''A''], sc_textposition = ''middle right'',
                sc_cliponaxis = False,
                sc_marker = \<lparr>mk_symbol = [''triangle-up''], mk_size = [14], mk_opacity = 1\<rparr>\<rparr>],
            fr_name = ''SingleFrame''\<rparr>],
          [\<lparr>st_frames = [''SingleFrame''], st_options = None, st_label = ''SingleFrame'',
            st_method = ''animate''\<rparr>])"
  by (simp add: build_frames_def one_row_def columns_def single_trace_def getcol_def
      single_step_def)

lemma lone_trace_name: "sc_name (lone_trace rs rsm t) = t"
  by (simp add: lone_trace_def)

text \<open>
  Claim C5. A ratio table of fewer than two rows yields exactly one frame, whose key is the
  fixed name SingleFrame. For every instrument the frame holds every point there is (none or
  one), the up marker and the label of the instrument on the last point only; and exactly
  one slider step, which refers to that frame.
\<close>

theorem degenerate_single_frame:
  assumes "same_shape rs_data rsm_data" and "length (t_index rs_data) < 2"
  shows "\<exists>f s. build_frames rs_data rsm_data n total_frames = Inr ([f], [s]) \<and>
     fr_name f = ''SingleFrame'' \<and>
     map sc_name (fr_data f) = columns rs_data \<and>
     (\<forall>tr \<in> set (fr_data f).
        sc_x tr = the_col rs_data (sc_name tr) \<and> sc_y tr = the_col rsm_data (sc_name tr) \<and>
        length (sc_x tr) = length (t_index rs_data) \<and>
        length (sc_y tr) = length (t_index rs_data) \<and>
        mk_symbol (sc_marker tr) = [''triangle-up''] \<and>
        sc_text tr = replicate (length (sc_x tr) - 1) None @ [Some (sc_name tr)]) \<and>
     st_frames s = [fr_name f] \<and> st_label s = fr_name f"
proof -
  have names: "map sc_name (map (lone_trace rs_data rsm_data) (columns rs_data)) = columns rs_data"
    by (induction "columns rs_data") (simp_all add: lone_trace_def comp_def)
  have each: "\<forall>tr \<in> set (map (lone_trace rs_data rsm_data) (columns rs_data)).
        sc_x tr = the_col rs_data (sc_name tr) \<and> sc_y tr = the_col rsm_data (sc_name tr) \<and>
        length (sc_x tr) = length (t_index rs_data) \<and>
        length (sc_y tr) = length (t_index rs_data) \<and>
        mk_symbol (sc_marker tr) = [''triangle-up''] \<and>
        sc_text tr = replicate (length (sc_x tr) - 1) None @ [Some (sc_name tr)]"
    using same_shape_lengths(1,2)[OF assms(1)] by (auto simp: lone_trace_def)
  show ?thesis
    unfolding build_frames_single[OF assms]
    using names each by (auto simp: single_step_def lone_trace_name)
qed

theorem degenerate_single_frame_witness:
  "same_shape one_row one_row \<and> length (t_index one_row) < 2 \<and>
   (\<exists>f s. build_frames one_row one_row 3 10 = Inr ([f], [s]) \<and>
     fr_name f = ''SingleFrame'' \<and>
     map sc_name (fr_data f) = [''A''] \<and>
     map sc_x (fr_data f) = [[Fin 100]] \<and>
     map (\<lambda>tr. mk_symbol (sc_marker tr)) (fr_data f) = [[''triangle-up'']] \<and>
     map sc_text (fr_data f) = [[Some ''A'']] \<and>
     st_frames s = [fr_name f])"
proof -
  have len: "length (t_index one_row) < 2" by (simp add: one_row_def)
  from degenerate_single_frame[OF one_row_shape len, of 3 10]
  obtain f s where fs: "build_frames one_row one_row 3 10 = Inr ([f], [s])" by blast
  with one_row_frames show ?thesis using one_row_shape len by auto
qed

subsection \<open>Slider steps\<close>

text \<open>
  Claim C9 does not hold of the single frame of a short table: its slider step carries the
  name of the frame and no animation options at all.
\<close>

theorem degenerate_step_counterexample:
  "map_sum id (\<lambda>r. map st_options (snd r)) (build_frames one_row one_row 3 10) = Inr [None]"
  using one_row_frames by simp

text \<open>
  Claim C9, as amended. The builder emits one slider step per frame, in the order of the
  frames, and each step names its frame. In the general case (two rows or more) every step
  carries the options of an instant jump: frame duration 0, mode immediate, transition
  duration 0. The step of the single frame of a shorter table carries no options.
\<close>

theorem navigation_steps:
  assumes "same_shape rs_data rsm_data"
  shows "\<exists>frames steps. build_frames rs_data rsm_data n total_frames = Inr (frames, steps) \<and>
     length steps = length frames \<and>
     (\<forall>k < length frames.
        st_frames (steps ! k) = [fr_name (frames ! k)] \<and>
        st_label (steps ! k) = fr_name (frames ! k) \<and>
        st_method (steps ! k) = ''animate'' \<and>
        st_options (steps ! k) =
          (if length (t_index rs_data) < 2 then None
           else Some \<lparr>an_frame_duration = 0, an_frame_redraw = True,
                       an_mode = ''immediate'', an_transition_duration = 0\<rparr>))"
proof (cases "length (t_index rs_data) < 2")
  case True
  show ?thesis
    unfolding build_frames_single[OF assms True]
    using True by (simp add: single_step_def)
next
  case False
  then have two: "2 \<le> length (t_index rs_data)" by simp
  show ?thesis
    unfolding build_frames_general[OF assms two]
    using False by (simp add: tail_step_def)
qed

lemma offsets_1: "offsets 1 = [1, 0]"
  by (simp add: offsets_def upto.simps)

lemma two_days_frames_steps:
  "map_sum id (\<lambda>r. (map fr_name (fst r), map st_frames (snd r), map st_options (snd r)))
     (build_frames two_days_rs two_days_rsm 2 1) =
   Inr ([''2024-01-02 - 2024-01-02'', ''2024-01-02 - 2024-01-03''],
        [[''2024-01-02 - 2024-01-02''], [''2024-01-02 - 2024-01-03'']],
        [Some \<lparr>an_frame_duration = 0, an_frame_redraw = True,
                an_mode = ''immediate'', an_transition_duration = 0\<rparr>,
         Some \<lparr>an_frame_duration = 0, an_frame_redraw = True,
                an_mode = ''immediate'', an_transition_duration = 0\<rparr>])"
  using offsets_1
  by (simp add: build_frames_def two_days_rs_def two_days_rsm_def frame_at_def window_bounds_def
      Let_def frame_key_def index_at_def columns_def tail_trace_def getcol_def slice_def
      arrow_symbol_def iloc_back_def arrow_of_def strftime_ymd_def digit_def tail_step_def)

theorem navigation_steps_witness:
  "same_shape two_days_rs two_days_rsm \<and>
   (\<exists>frames steps. build_frames two_days_rs two_days_rsm 2 1 = Inr (frames, steps) \<and>
      length steps = length frames \<and> length frames = 2 \<and>
      map st_frames steps = map (\<lambda>f. [fr_name f]) frames \<and>
      map st_options steps =
        [Some \<lparr>an_frame_duration = 0, an_frame_redraw = True,
                an_mode = ''immediate'', an_transition_duration = 0\<rparr>,
         Some \<lparr>an_frame_duration = 0, an_frame_redraw = True,
                an_mode = ''immediate'', an_transition_duration = 0\<rparr>])"
proof -
  from navigation_steps[OF two_days_shape, of 2 1]
  obtain frames steps where
    b: "build_frames two_days_rs two_days_rsm 2 1 = Inr (frames, steps)" and
    l: "length steps = length frames"
    by blast
  from two_days_frames_steps b l show ?thesis
    using two_days_shape by (auto simp: map_eq_Cons_conv)
qed

subsection \<open>The bounds of a window\<close>

lemma five_days_shape: "same_shape five_days five_days"
  by (simp add: same_shape_def wf_table_def five_days_def columns_def)

lemma offsets_4: "offsets 4 = [4, 3, 2, 1, 0]"
  by (simp add: offsets_def upto.simps)

lemma five_days_frames:
  "map_sum id (\<lambda>r. map (\<lambda>f. (fr_name f, map sc_x (fr_data f))) (fst r))
     (build_frames five_days five_days 3 4) =
   Inr [(''2024-01-01 - 2024-01-01'', [[Fin 1]]),
        (''2024-01-01 - 2024-01-02'', [[Fin 1, Fin 2]]),
        (''2024-01-01 - 2024-01-03'', [[Fin 1, Fin 2, Fin 3]]),
        (''2024-01-02 - 2024-01-04'', [[Fin 2, Fin 3, Fin 4]]),
        (''2024-01-03 - 2024-01-05'', [[Fin 3, Fin 4, Fin 5]])]"
  using offsets_4
  by (simp add: build_frames_def five_days_def frame_at_def window_bounds_def
      Let_def frame_key_def index_at_def columns_def tail_trace_def getcol_def slice_def
      arrow_symbol_def iloc_back_def arrow_of_def strftime_ymd_def digit_def tail_step_def)

text \<open>
  Claim C1 does not hold: the source takes the end of the window from the start before it
  clamps the start. In a table of five rows with a tail of three, the window at offset 4 is
  the first row alone, where the bounds of the claim give the first three rows.
\<close>

theorem window_end_counterexample:
  "window_bounds 5 3 4 = (0, 1) \<and>
   (win_start 5 3 4, spec_stop 5 3 4) = (0, 3) \<and>
   map_sum id (\<lambda>r. map (\<lambda>f. map sc_x (fr_data f)) (fst r))
     (build_frames five_days five_days 3 4) =
   Inr [[[Fin 1]], [[Fin 1, Fin 2]], [[Fin 1, Fin 2, Fin 3]], [[Fin 2, Fin 3, Fin 4]],
        [[Fin 3, Fin 4, Fin 5]]]"
proof -
  have b: "window_bounds 5 3 4 = (0, 1)" "(win_start 5 3 4, spec_stop 5 3 4) = (0, 3)"
    by (simp_all add: window_bounds_def win_start_def spec_stop_def Let_def)
  have x: "map_sum id (\<lambda>r. map (\<lambda>f. map sc_x (fr_data f)) (fst r))
     (build_frames five_days five_days 3 4) =
   Inr [[[Fin 1]], [[Fin 1, Fin 2]], [[Fin 1, Fin 2, Fin 3]], [[Fin 2, Fin 3, Fin 4]],
        [[Fin 3, Fin 4, Fin 5]]]"
  proof (cases "build_frames five_days five_days 3 4")
    case (Inl e)
    with five_days_frames show ?thesis by simp
  next
    case (Inr r)
    with five_days_frames have
      "map (\<lambda>f. (fr_name f, map sc_x (fr_data f))) (fst r) =
         [(''2024-01-01 - 2024-01-01'', [[Fin 1]]),
          (''2024-01-01 - 2024-01-02'', [[Fin 1, Fin 2]]),
          (''2024-01-01 - 2024-01-03'', [[Fin 1, Fin 2, Fin 3]]),
          (''2024-01-02 - 2024-01-04'', [[Fin 2, Fin 3, Fin 4]]),
          (''2024-01-03 - 2024-01-05'', [[Fin 3, Fin 4, Fin 5]])]"
      by simp
    then have "map snd (map (\<lambda>f. (fr_name f, map sc_x (fr_data f))) (fst r)) =
         [[[Fin 1]], [[Fin 1, Fin 2]], [[Fin 1, Fin 2, Fin 3]], [[Fin 2, Fin 3, Fin 4]],
          [[Fin 3, Fin 4, Fin 5]]]"
      by simp
    with Inr show ?thesis by (simp add: comp_def)
  qed
  from b x show ?thesis by simp
qed

lemma win_frame_window:
  "fr_name (win_frame rs rsm n i) =
     win_key rs (nat (fst (window_bounds (nrows rs) n i))) (nat (snd (window_bounds (nrows rs) n i))) \<and>
   map sc_name (fr_data (win_frame rs rsm n i)) = columns rs \<and>
   (\<forall>tr \<in> set (fr_data (win_frame rs rsm n i)).
      sc_x tr = slice (the_col rs (sc_name tr))
                  (nat (fst (window_bounds (nrows rs) n i))) (nat (snd (window_bounds (nrows rs) n i))) \<and>
      sc_y tr = slice (the_col rsm (sc_name tr))
                  (nat (fst (window_bounds (nrows rs) n i))) (nat (snd (window_bounds (nrows rs) n i))))"
  by (auto simp: win_frame_def Let_def window_bounds_eq nrows_def win_trace_def comp_def)

text \<open>
  Claim C1, as amended. In the general case the window at offset \<open>i\<close> runs from
  \<open>start = max(0, len - tail - i)\<close> to \<open>end = min(len, (len - tail - i) + tail)\<close>: the end is
  taken from the start before it is clamped. The offset is skipped exactly when
  \<open>end - start < 1\<close>; otherwise it yields the frame and the step of the rows \<open>start\<close> to
  \<open>end - 1\<close>, and the builder returns these frames and steps for the offsets from the frame
  count down to 0.
\<close>

theorem window_bounds_general:
  assumes "same_shape rs_data rsm_data" and "2 \<le> length (t_index rs_data)"
  shows
   "(\<forall>i. window_bounds (nrows rs_data) n i =
          (max 0 (nrows rs_data - n - i),
           min (nrows rs_data) ((nrows rs_data - n - i) + n))) \<and>
    (\<forall>i. frame_at rs_data rsm_data n i =
          Inr (if snd (window_bounds (nrows rs_data) n i) -
                  fst (window_bounds (nrows rs_data) n i) < 1 then None
               else Some (win_frame rs_data rsm_data n i,
                          tail_step (fr_name (win_frame rs_data rsm_data n i))))) \<and>
    (\<forall>i. fr_name (win_frame rs_data rsm_data n i) =
            win_key rs_data (nat (fst (window_bounds (nrows rs_data) n i)))
                            (nat (snd (window_bounds (nrows rs_data) n i))) \<and>
          map sc_name (fr_data (win_frame rs_data rsm_data n i)) = columns rs_data \<and>
          (\<forall>tr \<in> set (fr_data (win_frame rs_data rsm_data n i)).
             sc_x tr = slice (the_col rs_data (sc_name tr))
                         (nat (fst (window_bounds (nrows rs_data) n i)))
                         (nat (snd (window_bounds (nrows rs_data) n i))) \<and>
             sc_y tr = slice (the_col rsm_data (sc_name tr))
                         (nat (fst (window_bounds (nrows rs_data) n i)))
                         (nat (snd (window_bounds (nrows rs_data) n i))))) \<and>
    build_frames rs_data rsm_data n total_frames =
      Inr (map (win_frame rs_data rsm_data n)
             (filter (\<lambda>i. \<not> (snd (window_bounds (nrows rs_data) n i) -
                               fst (window_bounds (nrows rs_data) n i) < 1))
                (offsets total_frames)),
           map (\<lambda>i. tail_step (fr_name (win_frame rs_data rsm_data n i)))
             (filter (\<lambda>i. \<not> (snd (window_bounds (nrows rs_data) n i) -
                               fst (window_bounds (nrows rs_data) n i) < 1))
                (offsets total_frames)))"
proof (intro conjI allI)
  fix i
  show "window_bounds (nrows rs_data) n i =
          (max 0 (nrows rs_data - n - i), min (nrows rs_data) ((nrows rs_data - n - i) + n))"
    by (simp add: window_bounds_eq win_start_def win_stop_def)
  show "frame_at rs_data rsm_data n i =
          Inr (if snd (window_bounds (nrows rs_data) n i) -
                  fst (window_bounds (nrows rs_data) n i) < 1 then None
               else Some (win_frame rs_data rsm_data n i,
                          tail_step (fr_name (win_frame rs_data rsm_data n i))))"
    unfolding frame_at_ok[OF assms(1)] by (simp add: window_bounds_eq skipped_def nrows_def)
  from win_frame_window[of rs_data rsm_data n i]
  show "fr_name (win_frame rs_data rsm_data n i) =
            win_key rs_data (nat (fst (window_bounds (nrows rs_data) n i)))
                            (nat (snd (window_bounds (nrows rs_data) n i)))"
    and "map sc_name (fr_data (win_frame rs_data rsm_data n i)) = columns rs_data"
    and "\<forall>tr \<in> set (fr_data (win_frame rs_data rsm_data n i)).
             sc_x tr = slice (the_col rs_data (sc_name tr))
                         (nat (fst (window_bounds (nrows rs_data) n i)))
                         (nat (snd (window_bounds (nrows rs_data) n i))) \<and>
             sc_y tr = slice (the_col rsm_data (sc_name tr))
                         (nat (fst (window_bounds (nrows rs_data) n i)))
                         (nat (snd (window_bounds (nrows rs_data) n i)))"
    by blast+
next
  show "build_frames rs_data rsm_data n total_frames =
      Inr (map (win_frame rs_data rsm_data n)
             (filter (\<lambda>i. \<not> (snd (window_bounds (nrows rs_data) n i) -
                               fst (window_bounds (nrows rs_data) n i) < 1))
                (offsets total_frames)),
           map (\<lambda>i. tail_step (fr_name (win_frame rs_data rsm_data n i)))
             (filter (\<lambda>i. \<not> (snd (window_bounds (nrows rs_data) n i) -
                               fst (window_bounds (nrows rs_data) n i) < 1))
                (offsets total_frames)))"
    unfolding build_frames_general[OF assms]
    by (simp add: emitted_def skipped_def window_bounds_eq nrows_def)
qed

theorem window_bounds_general_witness:
  "same_shape five_days five_days \<and> 2 \<le> length (t_index five_days) \<and>
   map (window_bounds (nrows five_days) 3) (offsets 6) =
     [(0, -1), (0, 0), (0, 1), (0, 2), (0, 3), (1, 4), (2, 5)] \<and>
   map (\<lambda>i. frame_at five_days five_days 3 i = Inr None) (offsets 6) =
     [True, True, False, False, False, False, False] \<and>
   map_sum id (\<lambda>r. map (\<lambda>f. (fr_name f, map sc_x (fr_data f))) (fst r))
     (build_frames five_days five_days 3 4) =
   Inr [(''2024-01-01 - 2024-01-01'', [[Fin 1]]),
        (''2024-01-01 - 2024-01-02'', [[Fin 1, Fin 2]]),
        (''2024-01-01 - 2024-01-03'', [[Fin 1, Fin 2, Fin 3]]),
        (''2024-01-02 - 2024-01-04'', [[Fin 2, Fin 3, Fin 4]]),
        (''2024-01-03 - 2024-01-05'', [[Fin 3, Fin 4, Fin 5]])]"
proof -
  have len: "2 \<le> length (t_index five_days)" by (simp add: five_days_def)
  have o6: "offsets 6 = [6, 5, 4, 3, 2, 1, 0]" by (simp add: offsets_def upto.simps)
  have L: "nrows five_days = 5" by (simp add: nrows_def five_days_def)
  note w = window_bounds_general[OF five_days_shape len, of 3 4]
  from w have wb: "\<And>i. window_bounds (nrows five_days) 3 i =
          (max 0 (nrows five_days - 3 - i), min (nrows five_days) ((nrows five_days - 3 - i) + 3))"
    by blast
  from w have fa: "\<And>i. frame_at five_days five_days 3 i =
          Inr (if snd (window_bounds (nrows five_days) 3 i) -
                  fst (window_bounds (nrows five_days) 3 i) < 1 then None
               else Some (win_frame five_days five_days 3 i,
                          tail_step (fr_name (win_frame five_days five_days 3 i))))"
    by blast
  have 1: "map (window_bounds (nrows five_days) 3) (offsets 6) =
     [(0, -1), (0, 0), (0, 1), (0, 2), (0, 3), (1, 4), (2, 5)]"
    unfolding o6 L by (simp add: wb[unfolded L])
  have 2: "map (\<lambda>i. frame_at five_days five_days 3 i = Inr None) (offsets 6) =
     [True, True, False, False, False, False, False]"
    unfolding o6 by (simp add: fa[unfolded L] wb[unfolded L])
  from five_days_shape len 1 2 five_days_frames show ?thesis by simp
qed

subsection \<open>Count, order and keys of the frames\<close>

lemma same_day_frames:
  "map_sum id (\<lambda>r. map fr_name (fst r)) (build_frames same_day same_day 1 1) =
     Inr [''2024-01-02 - 2024-01-02'', ''2024-01-02 - 2024-01-02'']"
  using offsets_1
  by (simp add: build_frames_def same_day_def frame_at_def window_bounds_def
      Let_def frame_key_def index_at_def columns_def tail_trace_def getcol_def slice_def
      arrow_symbol_def iloc_back_def arrow_of_def strftime_ymd_def digit_def tail_step_def)

text \<open>
  Claim C6 does not hold of the keys: they show the calendar date only, so two frames whose
  last rows fall on one day have one key. Here the index holds two timestamps of the same
  day, an hour apart, and the two frames of tail length 1 get the same key.
\<close>

theorem same_day_keys_counterexample:
  "strftime_ymd (2024, 1, 2, 32400000000000) = strftime_ymd (2024, 1, 2, 36000000000000) \<and>
   map_sum id (\<lambda>r. map fr_name (fst r)) (build_frames same_day same_day 1 1) =
     Inr [''2024-01-02 - 2024-01-02'', ''2024-01-02 - 2024-01-02'']"
  using same_day_frames by (simp add: strftime_ymd_def)

lemma length_strftime_ymd: "length (strftime_ymd ts) = 10"
  by (cases ts) (simp add: strftime_ymd_def)

lemma offsets_nonneg: "i \<in> set (offsets total_frames) \<Longrightarrow> 0 \<le> i"
  by (simp add: offsets_def)

lemma distinct_offsets: "distinct (offsets total_frames)"
  by (simp add: offsets_def)

lemma length_offsets: "0 \<le> total_frames \<Longrightarrow> int (length (offsets total_frames)) = total_frames + 1"
  by (simp add: offsets_def)

lemma emitted_subset: "i \<in> set (emitted len n total_frames) \<Longrightarrow> 0 \<le> i \<and> \<not> skipped len n i"
  by (auto simp: emitted_def offsets_nonneg)

lemma length_emitted:
  "0 \<le> total_frames \<Longrightarrow>
   int (length (emitted len n total_frames)) =
     total_frames + 1 - int (length (filter (skipped len n) (offsets total_frames)))"
  using sum_length_filter_compl[of "skipped len n" "offsets total_frames"]
        length_offsets[of total_frames]
  by (simp add: emitted_def)

lemma sorted_emitted:
  "sorted_wrt (\<lambda>i j. win_stop len n i < win_stop len n j \<and> win_start len n i \<le> win_start len n j)
     (emitted len n total_frames)"
proof -
  have "sorted_wrt (\<lambda>i j. j < i) (offsets total_frames)"
    by (simp add: offsets_def sorted_wrt_rev)
  then have "sorted_wrt (\<lambda>i j. j < i) (emitted len n total_frames)"
    unfolding emitted_def by (rule sorted_wrt_filter)
  then show ?thesis
  proof (rule sorted_wrt_mono_rel[rotated])
    fix i j
    assume "i \<in> set (emitted len n total_frames)" "j \<in> set (emitted len n total_frames)" "j < i"
    then show "win_stop len n i < win_stop len n j \<and> win_start len n i \<le> win_start len n j"
      using emitted_subset[of i len n total_frames] emitted_subset[of j len n total_frames]
      by (auto simp: win_stop_def win_start_def)
  qed
qed

lemma win_key_inj:
  assumes d: "distinct (map strftime_ymd (t_index rs))"
    and i: "0 \<le> i" "\<not> skipped (int (length (t_index rs))) n i"
    and j: "0 \<le> j" "\<not> skipped (int (length (t_index rs))) n j"
    and eq: "fr_name (win_frame rs rsm n i) = fr_name (win_frame rs rsm n j)"
  shows "i = j"
proof -
  let ?L = "int (length (t_index rs))"
  let ?e = "\<lambda>k. nat (win_stop ?L n k) - 1"
  from win_bounds_range[OF i(2)] win_stop_offset[OF i(1), of ?L n]
  have ri: "?e i < length (t_index rs)" "int (?e i) = ?L - i - 1" by auto
  from win_bounds_range[OF j(2)] win_stop_offset[OF j(1), of ?L n]
  have rj: "?e j < length (t_index rs)" "int (?e j) = ?L - j - 1" by auto
  from eq have h: "strftime_ymd (t_index rs ! ?e i) = strftime_ymd (t_index rs ! ?e j)"
    by (simp add: win_frame_def Let_def win_key_def length_strftime_ymd)
  have "?e i = ?e j"
    using nth_eq_iff_index_eq[OF d, of "?e i" "?e j"] ri(1) rj(1) h by simp
  with ri(2) rj(2) show ?thesis by linarith
qed

lemma distinct_keys:
  assumes "distinct (map strftime_ymd (t_index rs))"
  shows "distinct (map (\<lambda>i. fr_name (win_frame rs rsm n i))
           (emitted (int (length (t_index rs))) n total_frames))"
proof -
  have "distinct (emitted (int (length (t_index rs))) n total_frames)"
    by (simp add: emitted_def distinct_offsets)
  moreover have "inj_on (\<lambda>i. fr_name (win_frame rs rsm n i))
      (set (emitted (int (length (t_index rs))) n total_frames))"
    by (rule inj_onI) (use win_key_inj[OF assms] emitted_subset in blast)
  ultimately show ?thesis by (simp add: distinct_map)
qed

text \<open>
  Claim C6, as amended. For a ratio table of two rows or more and a frame count that is
  not negative, the builder emits frame count + 1 frames less the skipped offsets; it emits
  as many slider steps as frames, the step at each position naming the frame at that
  position; the frames come oldest window first (along the list the last row of the window
  moves strictly later and the first row never earlier); and the keys of the frames are
  pairwise different provided the calendar dates of the time index are pairwise different.
\<close>

theorem frame_count_order_keys:
  assumes "same_shape rs_data rsm_data" and "2 \<le> length (t_index rs_data)"
    and "0 \<le> total_frames"
  shows "\<exists>frames steps. build_frames rs_data rsm_data n total_frames = Inr (frames, steps) \<and>
     int (length frames) =
       total_frames + 1 -
       int (length (filter (skipped (nrows rs_data) n) (offsets total_frames))) \<and>
     length steps = length frames \<and>
     map st_frames steps = map (\<lambda>f. [fr_name f]) frames \<and>
     frames = map (win_frame rs_data rsm_data n) (emitted (nrows rs_data) n total_frames) \<and>
     sorted_wrt (\<lambda>i j. win_stop (nrows rs_data) n i < win_stop (nrows rs_data) n j \<and>
                        win_start (nrows rs_data) n i \<le> win_start (nrows rs_data) n j)
       (emitted (nrows rs_data) n total_frames) \<and>
     (distinct (map strftime_ymd (t_index rs_data)) \<longrightarrow> distinct (map fr_name frames))"
  unfolding build_frames_general[OF assms(1,2)] nrows_def
  using length_emitted[OF assms(3)] sorted_emitted distinct_keys[of rs_data rsm_data n total_frames]
  by (simp add: tail_step_def comp_def)

theorem frame_count_order_keys_witness:
  "same_shape five_days five_days \<and> 2 \<le> length (t_index five_days) \<and> (0::int) \<le> 6 \<and>
   distinct (map strftime_ymd (t_index five_days)) \<and>
   filter (skipped (nrows five_days) 3) (offsets 6) = [6, 5] \<and>
   emitted (nrows five_days) 3 6 = [4, 3, 2, 1, 0] \<and>
   (\<exists>frames steps. build_frames five_days five_days 3 6 = Inr (frames, steps) \<and>
      length frames = 5 \<and> length steps = 5 \<and>
      map st_frames steps = map (\<lambda>f. [fr_name f]) frames \<and>
      distinct (map fr_name frames))"
proof -
  have len: "2 \<le> length (t_index five_days)" by (simp add: five_days_def)
  have tf: "(0::int) \<le> 6" by simp
  have o6: "offsets 6 = [6, 5, 4, 3, 2, 1, 0]" by (simp add: offsets_def upto.simps)
  have L: "nrows five_days = 5" by (simp add: nrows_def five_days_def)
  have d: "distinct (map strftime_ymd (t_index five_days))"
    by (simp add: five_days_def strftime_ymd_def digit_def)
  have sk: "filter (skipped (nrows five_days) 3) (offsets 6) = [6, 5]"
    unfolding o6 L by (simp add: skipped_def win_start_def win_stop_def)
  have em: "emitted (nrows five_days) 3 6 = [4, 3, 2, 1, 0]"
    unfolding emitted_def o6 L by (simp add: skipped_def win_start_def win_stop_def)
  from frame_count_order_keys[OF five_days_shape len tf, of 3]
  obtain frames steps where
    b: "build_frames five_days five_days 3 6 = Inr (frames, steps)" and
    n: "int (length frames) = 6 + 1 - int (length (filter (skipped (nrows five_days) 3) (offsets 6)))" and
    s: "length steps = length frames" "map st_frames steps = map (\<lambda>f. [fr_name f]) frames" and
    k: "distinct (map strftime_ymd (t_index five_days)) \<longrightarrow> distinct (map fr_name frames)"
    by blast
  from n sk have "length frames = 5" by simp
  with b s k d five_days_shape len sk em show ?thesis by simp
qed

subsection \<open>Lengths within a frame\<close>

lemma no_rows_frames:
  "build_frames no_rows no_rows 3 10 =
     Inr ([\<lparr>fr_data =
              [\<lparr>sc_x = [], sc_y = [], sc_mode = ''lines+markers+text'',
                sc_name = ''A'', sc_text = [Some ''A''], sc_textposition = ''middle right'',
                sc_cliponaxis = False,
                sc_marker = \<lparr>mk_symbol = [''triangle-up''], mk_size = [14], mk_opacity = 1\<rparr>\<rparr>],
            fr_name = ''SingleFrame''\<rparr>],
          [\<lparr>st_frames = [''SingleFrame''], st_options = None, st_label = ''SingleFrame'',
            st_method = ''animate''\<rparr>])"
  by (simp add: build_frames_def no_rows_def columns_def single_trace_def getcol_def
      single_step_def)

text \<open>
  Claim C7 does not hold of a table without rows: the single frame is emitted all the same,
  and the one instrument has no point, one label and one marker.
\<close>

theorem empty_table_counterexample:
  "map_sum id
     (\<lambda>r. map (\<lambda>f. map (\<lambda>tr. (length (sc_x tr), length (sc_text tr),
                                   length (mk_symbol (sc_marker tr)))) (fr_data f)) (fst r))
     (build_frames no_rows no_rows 3 10) = Inr [[(0, 1, 1)]]"
  using no_rows_frames by simp

lemma win_trace_lengths:
  assumes "same_shape rs rsm" "t \<in> set (columns rs)" "start < stop" "stop \<le> length (t_index rs)"
  shows "length (sc_x (win_trace rs rsm start stop t)) = stop - start"
    and "length (sc_y (win_trace rs rsm start stop t)) = stop - start"
    and "length (sc_text (win_trace rs rsm start stop t)) = stop - start"
    and "length (mk_symbol (sc_marker (win_trace rs rsm start stop t))) = stop - start"
    and "length (mk_size (sc_marker (win_trace rs rsm start stop t))) = stop - start"
  using same_shape_lengths(1,2)[OF assms(1,2)] assms(3,4)
  by (simp_all add: win_trace_def Let_def length_slice)

lemma win_frame_lengths:
  assumes sh: "same_shape rs rsm" and ns: "\<not> skipped (int (length (t_index rs))) n i"
    and tr: "tr \<in> set (fr_data (win_frame rs rsm n i))"
  defines "w \<equiv> nat (win_stop (int (length (t_index rs))) n i - win_start (int (length (t_index rs))) n i)"
  shows "length (sc_x tr) = w \<and> length (sc_y tr) = w \<and> length (sc_text tr) = w \<and>
         length (mk_symbol (sc_marker tr)) = w \<and> length (mk_size (sc_marker tr)) = w"
proof -
  let ?L = "int (length (t_index rs))"
  from win_bounds_range[OF ns]
  have r: "nat (win_start ?L n i) < nat (win_stop ?L n i)"
          "nat (win_stop ?L n i) \<le> length (t_index rs)"
          "nat (win_stop ?L n i) - nat (win_start ?L n i) = w"
    unfolding w_def by auto
  from tr obtain t where t: "t \<in> set (columns rs)"
      "tr = win_trace rs rsm (nat (win_start ?L n i)) (nat (win_stop ?L n i)) t"
    by (auto simp: win_frame_def Let_def)
  show ?thesis
    unfolding t(2) using win_trace_lengths[OF sh t(1) r(1,2)] r(3) by simp
qed

lemma window_length_bounds:
  "\<not> skipped len n i \<Longrightarrow>
   1 \<le> nat (win_stop len n i - win_start len n i) \<and>
   int (nat (win_stop len n i - win_start len n i)) \<le> n"
  by (auto simp: skipped_def win_start_def win_stop_def)

lemma emitted_window_bounds:
  "emitted (int (length (t_index rs))) n total_frames =
     filter (\<lambda>i. \<not> (snd (window_bounds (nrows rs) n i) - fst (window_bounds (nrows rs) n i) < 1))
       (offsets total_frames)"
  by (simp add: emitted_def skipped_def window_bounds_eq nrows_def)

lemma five_days_lengths:
  "map_sum id
     (\<lambda>r. map (\<lambda>f. map (\<lambda>tr. [length (sc_x tr), length (sc_y tr), length (sc_text tr),
                                  length (mk_symbol (sc_marker tr)),
                                  length (mk_size (sc_marker tr))]) (fr_data f)) (fst r))
     (build_frames five_days five_days 3 4) =
   Inr [[[1, 1, 1, 1, 1]], [[2, 2, 2, 2, 2]], [[3, 3, 3, 3, 3]], [[3, 3, 3, 3, 3]],
        [[3, 3, 3, 3, 3]]]"
  using offsets_4
  by (simp add: build_frames_def five_days_def frame_at_def window_bounds_def
      Let_def frame_key_def index_at_def columns_def tail_trace_def getcol_def slice_def
      arrow_symbol_def iloc_back_def strftime_ymd_def digit_def tail_step_def)

text \<open>
  Claim C7, as amended. When the ratio table has at least one row and the tail length is
  positive, the point sequences (ratio and momentum), the label sequence and the two marker
  sequences of every instrument of an emitted frame have one length, the length of the
  window: 1 in the single frame of a table of one row, and \<open>end - start\<close> in the frame of
  an offset of the general case, which is at least 1 and at most the tail length. In the
  general case the frames are those of the offsets with \<open>end - start \<ge> 1\<close>, in the order
  of the loop.
\<close>

theorem trace_lengths:
  assumes "same_shape rs_data rsm_data" and "1 \<le> length (t_index rs_data)" and "1 \<le> n"
  shows "\<exists>frames steps. build_frames rs_data rsm_data n total_frames = Inr (frames, steps) \<and>
     (length (t_index rs_data) < 2 \<longrightarrow>
        length frames = 1 \<and>
        (\<forall>tr \<in> set (fr_data (frames ! 0)).
           length (sc_x tr) = 1 \<and> length (sc_y tr) = 1 \<and> length (sc_text tr) = 1 \<and>
           length (mk_symbol (sc_marker tr)) = 1 \<and> length (mk_size (sc_marker tr)) = 1)) \<and>
     (2 \<le> length (t_index rs_data) \<longrightarrow>
        length frames =
          length (filter (\<lambda>i. \<not> (snd (window_bounds (nrows rs_data) n i) -
                                    fst (window_bounds (nrows rs_data) n i) < 1))
                    (offsets total_frames)) \<and>
        (\<forall>k < length frames.
           \<exists>i start stop.
             i = filter (\<lambda>i. \<not> (snd (window_bounds (nrows rs_data) n i) -
                                   fst (window_bounds (nrows rs_data) n i) < 1))
                   (offsets total_frames) ! k \<and>
             window_bounds (nrows rs_data) n i = (start, stop) \<and>
             1 \<le> stop - start \<and> stop - start \<le> n \<and>
             (\<forall>tr \<in> set (fr_data (frames ! k)).
                int (length (sc_x tr)) = stop - start \<and>
                int (length (sc_y tr)) = stop - start \<and>
                int (length (sc_text tr)) = stop - start \<and>
                int (length (mk_symbol (sc_marker tr))) = stop - start \<and>
                int (length (mk_size (sc_marker tr))) = stop - start)))"
proof (cases "length (t_index rs_data) < 2")
  case True
  with assms(2) have one: "length (t_index rs_data) = 1" by simp
  have "\<forall>tr \<in> set (map (lone_trace rs_data rsm_data) (columns rs_data)).
           length (sc_x tr) = 1 \<and> length (sc_y tr) = 1 \<and> length (sc_text tr) = 1 \<and>
           length (mk_symbol (sc_marker tr)) = 1 \<and> length (mk_size (sc_marker tr)) = 1"
    using same_shape_lengths(1,2)[OF assms(1)] one by (auto simp: lone_trace_def)
  then show ?thesis
    unfolding build_frames_single[OF assms(1) True]
    using True by simp
next
  case False
  then have two: "2 \<le> length (t_index rs_data)" by simp
  let ?L = "int (length (t_index rs_data))"
  let ?em = "emitted ?L n total_frames"
  have each: "\<exists>i start stop.
             i = ?em ! k \<and>
             window_bounds (nrows rs_data) n i = (start, stop) \<and>
             1 \<le> stop - start \<and> stop - start \<le> n \<and>
             (\<forall>tr \<in> set (fr_data (map (win_frame rs_data rsm_data n) ?em ! k)).
                int (length (sc_x tr)) = stop - start \<and>
                int (length (sc_y tr)) = stop - start \<and>
                int (length (sc_text tr)) = stop - start \<and>
                int (length (mk_symbol (sc_marker tr))) = stop - start \<and>
                int (length (mk_size (sc_marker tr))) = stop - start)"
    if k: "k < length ?em" for k
  proof -
    from k have "?em ! k \<in> set ?em" by simp
    then have ns: "\<not> skipped ?L n (?em ! k)" by (simp add: emitted_def)
    from window_length_bounds[OF ns]
    have b: "1 \<le> win_stop ?L n (?em ! k) - win_start ?L n (?em ! k)"
            "win_stop ?L n (?em ! k) - win_start ?L n (?em ! k) \<le> n"
      by linarith+
    have l: "\<forall>tr \<in> set (fr_data (win_frame rs_data rsm_data n (?em ! k))).
                int (length (sc_x tr)) = win_stop ?L n (?em ! k) - win_start ?L n (?em ! k) \<and>
                int (length (sc_y tr)) = win_stop ?L n (?em ! k) - win_start ?L n (?em ! k) \<and>
                int (length (sc_text tr)) = win_stop ?L n (?em ! k) - win_start ?L n (?em ! k) \<and>
                int (length (mk_symbol (sc_marker tr))) =
                  win_stop ?L n (?em ! k) - win_start ?L n (?em ! k) \<and>
                int (length (mk_size (sc_marker tr))) =
                  win_stop ?L n (?em ! k) - win_start ?L n (?em ! k)"
      using win_frame_lengths[OF assms(1) ns] b(1) by simp
    have wb: "window_bounds (nrows rs_data) n (?em ! k) =
                (win_start ?L n (?em ! k), win_stop ?L n (?em ! k))"
      by (simp add: window_bounds_eq nrows_def)
    from k b l wb show ?thesis
      by (intro exI[of _ "?em ! k"] exI[of _ "win_start ?L n (?em ! k)"]
          exI[of _ "win_stop ?L n (?em ! k)"]) simp
  qed
  show ?thesis
    unfolding build_frames_general[OF assms(1) two]
    using two each by (simp add: emitted_window_bounds[symmetric])
qed

theorem trace_lengths_witness:
  "same_shape five_days five_days \<and> 1 \<le> length (t_index five_days) \<and> (1::int) \<le> 3 \<and>
   filter (\<lambda>i. \<not> (snd (window_bounds (nrows five_days) 3 i) -
                    fst (window_bounds (nrows five_days) 3 i) < 1)) (offsets 4) =
     [4, 3, 2, 1, 0] \<and>
   map (window_bounds (nrows five_days) 3) [4, 3, 2, 1, 0] =
     [(0, 1), (0, 2), (0, 3), (1, 4), (2, 5)] \<and>
   (\<exists>frames steps. build_frames five_days five_days 3 4 = Inr (frames, steps) \<and>
      length frames = 5 \<and>
      map (\<lambda>f. map (\<lambda>tr. [length (sc_x tr), length (sc_y tr), length (sc_text tr),
                           length (mk_symbol (sc_marker tr)),
                           length (mk_size (sc_marker tr))]) (fr_data f)) frames =
        [[[1, 1, 1, 1, 1]], [[2, 2, 2, 2, 2]], [[3, 3, 3, 3, 3]], [[3, 3, 3, 3, 3]],
         [[3, 3, 3, 3, 3]]])"
proof -
  have len: "1 \<le> length (t_index five_days)" by (simp add: five_days_def)
  have n: "(1::int) \<le> 3" by simp
  have L: "nrows five_days = 5" by (simp add: nrows_def five_days_def)
  have wb: "map (window_bounds (nrows five_days) 3) [4, 3, 2, 1, 0] =
     [(0, 1), (0, 2), (0, 3), (1, 4), (2, 5)]"
    unfolding L by (simp add: window_bounds_def Let_def)
  have em: "filter (\<lambda>i. \<not> (snd (window_bounds (nrows five_days) 3 i) -
                    fst (window_bounds (nrows five_days) 3 i) < 1)) (offsets 4) =
     [4, 3, 2, 1, 0]"
    unfolding L offsets_4 by (simp add: window_bounds_def Let_def)
  from trace_lengths[OF five_days_shape len n, of 4]
  obtain frames steps where
    b: "build_frames five_days five_days 3 4 = Inr (frames, steps)" and
    c: "2 \<le> length (t_index five_days) \<longrightarrow>
        length frames =
          length (filter (\<lambda>i. \<not> (snd (window_bounds (nrows five_days) 3 i) -
                                    fst (window_bounds (nrows five_days) 3 i) < 1))
                    (offsets 4))"
    by blast
  from c em have five: "length frames = 5" by (simp add: five_days_def)
  from b five_days_lengths have
    "map (\<lambda>f. map (\<lambda>tr. [length (sc_x tr), length (sc_y tr), length (sc_text tr),
                           length (mk_symbol (sc_marker tr)),
                           length (mk_size (sc_marker tr))]) (fr_data f)) frames =
        [[[1, 1, 1, 1, 1]], [[2, 2, 2, 2, 2]], [[3, 3, 3, 3, 3]], [[3, 3, 3, 3, 3]],
         [[3, 3, 3, 3, 3]]]"
    by simp
  with b five have ex:
    "\<exists>frames steps. build_frames five_days five_days 3 4 = Inr (frames, steps) \<and>
      length frames = 5 \<and>
      map (\<lambda>f. map (\<lambda>tr. [length (sc_x tr), length (sc_y tr), length (sc_text tr),
                           length (mk_symbol (sc_marker tr)),
                           length (mk_size (sc_marker tr))]) (fr_data f)) frames =
        [[[1, 1, 1, 1, 1]], [[2, 2, 2, 2, 2]], [[3, 3, 3, 3, 3]], [[3, 3, 3, 3, 3]],
         [[3, 3, 3, 3, 3]]]"
    by (intro exI[of _ frames] exI[of _ steps] conjI)
  show ?thesis by (intro conjI five_days_shape len n em wb ex)
qed

subsection \<open>Columns of the tables of the metrics engine\<close>

lemma the_col_map_columns:
  "c \<in> set (columns df) \<Longrightarrow> the_col (map_columns f df) c = f (the_col df c)"
  by (auto simp: the_col_def map_columns_def columns_def map_of_map map_of_eq_None_iff
      split: option.splits)

lemma columns_map_columns: "columns (map_columns f df) = columns df"
  by (simp add: columns_def map_columns_def comp_def case_prod_unfold)

lemma map_of_zip_columns:
  "map fst xs = map fst ys \<Longrightarrow>
   map_of (map2 (\<lambda>(c, xs) (d, ys). (c, map2 f xs ys)) xs ys) c =
     (case map_of xs c of None \<Rightarrow> None
      | Some u \<Rightarrow> (case map_of ys c of None \<Rightarrow> None | Some v \<Rightarrow> Some (map2 f u v)))"
proof (induction xs arbitrary: ys)
  case Nil
  then show ?case by simp
next
  case (Cons x xs)
  then obtain y ys' where ys: "ys = y # ys'" by (cases ys) auto
  with Cons.prems have "fst x = fst y" "map fst xs = map fst ys'" by auto
  with Cons.IH[of ys'] ys show ?case
    by (cases x; cases y) (auto split: option.splits)
qed

lemma the_col_zip_columns:
  assumes "columns a = columns b" and "c \<in> set (columns a)"
  shows "the_col (zip_columns f a b) c = map2 f (the_col a c) (the_col b c)"
proof -
  from assms(2) obtain u where u: "map_of (t_columns a) c = Some u"
    by (cases "map_of (t_columns a) c") (auto simp: columns_def map_of_eq_None_iff)
  from assms obtain v where v: "map_of (t_columns b) c = Some v"
    by (cases "map_of (t_columns b) c") (auto simp: columns_def map_of_eq_None_iff)
  from assms(1) have "map fst (t_columns a) = map fst (t_columns b)"
    by (simp add: columns_def)
  from map_of_zip_columns[OF this, of f c] u v show ?thesis
    by (simp add: the_col_def zip_columns_def)
qed

lemma fst_zip_columns:
  "map fst xs = map fst ys \<Longrightarrow>
   map fst (map2 (\<lambda>(c, xs) (d, ys). (c, map2 f xs ys)) xs ys) = map fst xs"
proof (induction xs arbitrary: ys)
  case Nil
  then show ?case by simp
next
  case (Cons x xs)
  then show ?case by (cases ys; cases x) (auto simp: case_prod_unfold)
qed

lemma columns_zip_columns:
  assumes "columns a = columns b"
  shows "columns (zip_columns f a b) = columns a"
proof -
  have "columns (zip_columns f a b) =
          map fst (map2 (\<lambda>(c, xs) (d, ys). (c, map2 f xs ys)) (t_columns a) (t_columns b))"
    by (simp add: columns_def zip_columns_def)
  also have "\<dots> = map fst (t_columns a)"
    by (rule fst_zip_columns) (use assms in \<open>simp add: columns_def\<close>)
  finally show ?thesis by (simp add: columns_def)
qed

subsection \<open>Rolling statistics\<close>

lemma length_rolling: "length (rolling agg w xs) = length xs"
  by (simp add: rolling_def)

lemma rolling_nth:
  "t < length xs \<Longrightarrow>
   rolling agg w xs ! t =
     (if w \<le> length (finite_values (window_at w xs t)) \<and>
         0 < length (finite_values (window_at w xs t))
      then agg (finite_values (window_at w xs t)) else NaN)"
  by (simp add: rolling_def Let_def)

lemma length_finite_values: "length (finite_values xs) \<le> length xs"
  by (induction xs rule: finite_values.induct) simp_all

lemma length_window_at: "t < length xs \<Longrightarrow> length (window_at w xs t) = min w (t + 1)"
  by (auto simp: window_at_def)

lemma rolling_underfull:
  assumes "t < length xs" and "t + 1 < w"
  shows "rolling agg w xs ! t = NaN"
proof -
  have "length (finite_values (window_at w xs t)) \<le> t + 1"
    using length_finite_values[of "window_at w xs t"] length_window_at[OF assms(1), of w]
    by simp
  with assms show ?thesis by (simp add: rolling_nth)
qed

lemma rolling_zero: "t < length xs \<Longrightarrow> rolling agg 0 xs ! t = NaN"
  by (simp add: rolling_nth window_at_def)

text \<open>A window all of whose values are finite, and what a full window holds.\<close>

lemma finite_values_full:
  "length (finite_values xs) = length xs \<Longrightarrow> xs = map Fin (finite_values xs)"
proof (induction xs)
  case Nil
  then show ?case by simp
next
  case (Cons x xs)
  show ?case
  proof (cases x)
    case (Fin a)
    with Cons show ?thesis by simp
  qed (use Cons.prems length_finite_values[of xs] in simp_all)
qed

lemma last_window_at:
  assumes "t < length xs" and "1 \<le> w"
  shows "window_at w xs t \<noteq> [] \<and> last (window_at w xs t) = xs ! t"
proof -
  have ne: "window_at w xs t \<noteq> []"
    using length_window_at[OF assms(1), of w] assms(2) by (cases "window_at w xs t") auto
  have "last (window_at w xs t) = window_at w xs t ! (length (window_at w xs t) - 1)"
    by (rule last_conv_nth[OF ne])
  also have "\<dots> = xs ! t"
    using assms length_window_at[OF assms(1), of w]
    by (auto simp: window_at_def min_def)
  finally show ?thesis using ne by simp
qed

lemma full_window_cell:
  assumes t: "t < length xs" and full: "w \<le> length (finite_values (window_at w xs t))"
    and w: "1 \<le> w"
  shows "\<exists>a. xs ! t = Fin a \<and> a \<in> set (finite_values (window_at w xs t))"
proof -
  let ?win = "window_at w xs t"
  have "length (finite_values ?win) = length ?win"
    using full length_finite_values[of ?win] length_window_at[OF t, of w] by simp
  from finite_values_full[OF this] have m: "?win = map Fin (finite_values ?win)" .
  from last_window_at[OF t w] have ne: "?win \<noteq> []" and l: "last ?win = xs ! t" by simp_all
  from ne m have ne': "finite_values ?win \<noteq> []" by auto
  have "last ?win = Fin (last (finite_values ?win))"
    using m ne' last_map[of "finite_values ?win" Fin] by simp
  with l ne' show ?thesis by (intro exI[of _ "last (finite_values ?win)"]) simp
qed

subsection \<open>The two statistics\<close>

lemma all_same_hd: "all_same obs \<Longrightarrow> a \<in> set obs \<Longrightarrow> a = hd obs"
  by (simp add: all_same_def)

lemma mean_all_same: "all_same obs \<Longrightarrow> mean obs = Fin (hd obs)"
  by (simp add: mean_def)

lemma std0_all_same: "all_same obs \<Longrightarrow> std0 obs = Fin 0"
  by (simp add: std0_def)

lemma all_same_replicate: "all_same (replicate k a)"
  by (cases k) (simp_all add: all_same_def)

subsection \<open>Deviation from the rolling mean, in rolling standard deviations\<close>

lemma length_zscore: "length (zscore k w xs) = length xs"
  by (simp add: zscore_def length_rolling)

lemma zscore_nth:
  "t < length xs \<Longrightarrow>
   zscore k w xs ! t =
     fl_add (Fin k) (fl_div (fl_sub (xs ! t) (rolling mean w xs ! t)) (rolling std0 w xs ! t))"
  by (simp add: zscore_def length_rolling)

lemma fl_add_nan: "fl_add a NaN = NaN"
  by (cases a) simp_all

lemma fl_sub_nan: "fl_sub a NaN = NaN"
  by (cases a) simp_all

lemma fl_div_nan: "fl_div a NaN = NaN"
  by (cases a) simp_all

lemma fl_mul_nan: "fl_mul a NaN = NaN"
  by (cases a) simp_all

lemmas fl_nan = fl_add_nan fl_sub_nan fl_div_nan fl_mul_nan

lemma zscore_underfull: "t < length xs \<Longrightarrow> t + 1 < w \<Longrightarrow> zscore k w xs ! t = NaN"
  by (simp add: zscore_nth rolling_underfull fl_nan)

lemma zscore_zero_window: "t < length xs \<Longrightarrow> zscore k 0 xs ! t = NaN"
  by (simp add: zscore_nth rolling_zero fl_nan)

lemma zscore_nan_cell: "t < length xs \<Longrightarrow> xs ! t = NaN \<Longrightarrow> zscore k w xs ! t = NaN"
  by (simp add: zscore_nth fl_nan)


lemma zscore_all_same:
  assumes t: "t < length xs" and same: "all_same (finite_values (window_at w xs t))"
  shows "zscore k w xs ! t = NaN"
proof (cases "w \<le> length (finite_values (window_at w xs t)) \<and>
              0 < length (finite_values (window_at w xs t))")
  case False
  have "rolling mean w xs ! t = NaN"
    unfolding rolling_nth[OF t] by (rule if_not_P[OF False])
  with t show ?thesis by (simp add: zscore_nth fl_nan)
next
  case True
  let ?obs = "finite_values (window_at w xs t)"
  from True t have w: "1 \<le> w"
    using length_finite_values[of "window_at w xs t"] length_window_at[OF t, of w]
    by (cases w) auto
  from full_window_cell[OF t _ w] True obtain a where a: "xs ! t = Fin a" "a \<in> set ?obs"
    by blast
  from all_same_hd[OF same a(2)] have h: "hd ?obs = a" by simp
  have m: "rolling mean w xs ! t = Fin a"
    using True t mean_all_same[OF same] h by (simp add: rolling_nth)
  have s: "rolling std0 w xs ! t = Fin 0"
    using True t std0_all_same[OF same] by (simp add: rolling_nth)
  show ?thesis
    unfolding zscore_nth[OF t] a(1) m s by (simp add: fl_round_0 fl_inf_def)
qed

subsection \<open>The columns of the two tables the engine returns\<close>

lemma columns_div_axis0: "columns (div_axis0 df s) = columns df"
  by (simp add: div_axis0_def columns_def Let_def comp_def case_prod_unfold)

lemma calculate_negative: "window < 0 \<Longrightarrow> calculate pad b df window = Inl ValueError"
  by (simp add: calculate_def rolling_window_def Let_def)

lemma calculate_returns:
  "0 \<le> window \<Longrightarrow> \<exists>rs rsm. calculate pad b df window = Inr (rs, rsm)"
  by (simp add: calculate_def rolling_window_def Let_def)

lemma calculate_columns:
  assumes r: "calculate pad b df window = Inr (rs, rsm)" and c: "c \<in> set (columns df)"
  shows "the_col rs c = zscore 100 (nat window) (the_col (div_axis0 df b) c)"
    and "the_col rsm c = zscore 101 (nat window) (roc_of pad (the_col rs c))"
proof -
  let ?w = "nat window"
  let ?raw = "div_axis0 df b"
  let ?norm = "\<lambda>k df. map_columns (map (fl_add (Fin k)))
                 (zip_columns fl_div
                    (zip_columns fl_sub df (map_columns (rolling mean ?w) df))
                    (map_columns (rolling std0 ?w) df))"
  let ?roc = "map_columns (map (\<lambda>v. fl_mul v (Fin 100)))
                (map_columns (pct_change pad 5) (?norm 100 ?raw))"
  from r have w: "0 \<le> window"
    by (simp add: calculate_def rolling_window_def Let_def split: if_splits)
  then have "calculate pad b df window = Inr (?norm 100 ?raw, ?norm 101 ?roc)"
    by (simp add: calculate_def rolling_window_def Let_def)
  from this[symmetric, THEN trans, OF r]
  have rs: "rs = ?norm 100 ?raw" and rsm: "rsm = ?norm 101 ?roc"
    by blast+
  have norm: "the_col (?norm k t) c = zscore k ?w (the_col t c)"
    if "c \<in> set (columns t)" for k t
    using that
    by (simp add: the_col_map_columns the_col_zip_columns columns_zip_columns
        columns_map_columns zscore_def)
  have cn: "columns (?norm k t) = columns t" for k t
    by (simp add: columns_zip_columns columns_map_columns)
  from c have craw: "c \<in> set (columns ?raw)" by (simp add: columns_div_axis0)
  show 1: "the_col rs c = zscore 100 ?w (the_col ?raw c)"
    unfolding rs by (rule norm[OF craw])
  have croc: "c \<in> set (columns ?roc)"
    using craw by (simp add: columns_map_columns columns_zip_columns)
  have "the_col ?roc c = roc_of pad (the_col (?norm 100 ?raw) c)"
    using craw
    by (simp add: the_col_map_columns columns_map_columns columns_zip_columns roc_of_def)
  then show "the_col rsm c = zscore 101 ?w (roc_of pad (the_col rs c))"
    unfolding rsm rs using norm[OF croc, of 101] by simp
qed

lemma the_col_div_aligned:
  assumes "t_index df = s_index s"
  shows "the_col (div_axis0 df s) c = map2 fl_div (the_col df c) (s_values s)"
  using assms
  by (simp add: div_axis0_def the_col_def map_of_map split: option.splits)

subsection \<open>A window of finite values\<close>





subsection \<open>The normalised ratio\<close>

lemma upt_2: "[0..<2] = [0, 1]"
  by (simp add: upt_rec)












subsection \<open>Rate of change and momentum\<close>

lemma length_ffill_from: "length (ffill_from prev xs) = length xs"
  by (induction xs arbitrary: prev) simp_all


lemma length_pct_change: "length (pct_change pad k xs) = length xs"
  by (simp add: pct_change_def shift_def Let_def length_ffill_from)

lemma length_roc_of: "length (roc_of pad xs) = length xs"
  by (simp add: roc_of_def length_pct_change)

lemma shift_nth: "t < length xs \<Longrightarrow> shift k xs ! t = (if t < k then NaN else xs ! (t - k))"
  by (simp add: shift_def nth_append)









subsection \<open>An instrument that is the benchmark\<close>

text \<open>
  Claim C10 does not hold for every input: where the common price is 0 the raw ratio is
  \<open>0 / 0\<close>, not-a-number, not 1.
\<close>

theorem zero_price_counterexample:
  "t_index tickers_zero = s_index bench_zero \<and>
   the_col tickers_zero ''A'' = s_values bench_zero \<and>
   the_col (div_axis0 tickers_zero bench_zero) ''A'' = [NaN, Fin 1]"
  by (simp add: tickers_zero_def bench_zero_def div_axis0_def the_col_def fl_inf_def
      fl_round_ints)

lemma fl_div_self: "fl_div v v = (if priced v then Fin 1 else NaN)"
  by (cases v) (simp_all add: priced_def fl_inf_def fl_round_1)

lemma map2_div_self_nth:
  "t < length p \<Longrightarrow> map2 fl_div p p ! t = (if priced (p ! t) then Fin 1 else NaN)"
  by (simp add: fl_div_self)

lemma finite_values_ones:
  "set xs \<subseteq> {Fin 1, NaN} \<Longrightarrow> set (finite_values xs) \<subseteq> {1}"
  by (induction xs rule: finite_values.induct) auto

lemma all_same_subset: "set obs \<subseteq> {a} \<Longrightarrow> all_same obs"
  by (cases obs) (auto simp: all_same_def)

lemma set_window_at: "set (window_at w xs t) \<subseteq> set xs"
  unfolding window_at_def
  by (meson set_drop_subset set_take_subset subset_trans)

lemma zscore_ones:
  assumes "set xs \<subseteq> {Fin 1, NaN}" and "t < length xs"
  shows "zscore k w xs ! t = NaN"
proof -
  from assms(1) set_window_at[of w xs t] have "set (window_at w xs t) \<subseteq> {Fin 1, NaN}"
    by blast
  from all_same_subset[OF finite_values_ones[OF this]] show ?thesis
    by (rule zscore_all_same[OF assms(2)])
qed

lemma window_at_nth:
  assumes "t < length xs" and "j < min w (t + 1)"
  shows "window_at w xs t ! j = xs ! (t + 1 - w + j)"
proof -
  from assms have "t + 1 - w + j < t + 1" by (cases "w \<le> t + 1") auto
  with assms show ?thesis by (simp add: window_at_def)
qed

lemma window_ones:
  assumes t: "t < length xs" and w: "w \<le> t + 1"
    and ones: "\<forall>k. t + 1 - w \<le> k \<and> k \<le> t \<longrightarrow> xs ! k = Fin 1"
  shows "finite_values (window_at w xs t) = replicate w 1"
proof -
  have "window_at w xs t = replicate w (Fin 1)"
  proof (rule nth_equalityI)
    show "length (window_at w xs t) = length (replicate w (Fin 1 :: fl))"
      using length_window_at[OF t, of w] w by simp
  next
    fix j
    assume "j < length (window_at w xs t)"
    then have j: "j < min w (t + 1)" using length_window_at[OF t, of w] by simp
    with w have "t + 1 - w \<le> t + 1 - w + j \<and> t + 1 - w + j \<le> t" by auto
    with ones have "xs ! (t + 1 - w + j) = Fin 1" by blast
    with window_at_nth[OF t j] j show "window_at w xs t ! j = replicate w (Fin 1) ! j"
      by simp
  qed
  moreover have "finite_values (replicate w (Fin 1)) = replicate w 1"
    by (induction w) simp_all
  ultimately show ?thesis by simp
qed

lemma rolling_std0_ones:
  assumes t: "t < length xs" and w: "1 \<le> w" "w \<le> t + 1"
    and ones: "\<forall>k. t + 1 - w \<le> k \<and> k \<le> t \<longrightarrow> xs ! k = Fin 1"
  shows "rolling std0 w xs ! t = Fin 0"
  using w std0_all_same[OF all_same_replicate, of w 1]
  by (simp add: rolling_nth[OF t] window_ones[OF t w(2) ones])

text \<open>
  Claim C10, as amended. When an instrument has the index and the prices of the benchmark,
  its raw ratio is 1 at every row whose price is a finite number other than 0, and
  not-a-number at every other row; its rolling standard deviation is 0 at every row whose
  window is full of rows of the first kind; and its normalised ratio is not-a-number at
  every row, for every window of 0 or more.
\<close>

theorem identical_series_nan:
  assumes "t_index tickers_df = s_index benchmark_series"
    and "map_of (t_columns tickers_df) c = Some (s_values benchmark_series)"
    and "0 \<le> window"
  shows "\<exists>p raw.
     p = s_values benchmark_series \<and>
     raw = the_col (div_axis0 tickers_df benchmark_series) c \<and>
     length raw = length p \<and>
     (\<forall>t < length p. raw ! t = (if priced (p ! t) then Fin 1 else NaN)) \<and>
     (\<forall>t < length p.
        1 \<le> nat window \<and> nat window \<le> t + 1 \<and>
        (\<forall>k. t + 1 - nat window \<le> k \<and> k \<le> t \<longrightarrow> priced (p ! k)) \<longrightarrow>
        rolling std0 (nat window) raw ! t = Fin 0) \<and>
     (\<exists>rs rsm. calculate pad benchmark_series tickers_df window = Inr (rs, rsm) \<and>
        the_col rs c = replicate (length p) NaN)"
proof -
  let ?p = "s_values benchmark_series"
  let ?raw = "the_col (div_axis0 tickers_df benchmark_series) c"
  let ?w = "nat window"
  from assms(2) have pc: "the_col tickers_df c = ?p" by (simp add: the_col_def)
  have raw: "?raw = map2 fl_div ?p ?p"
    using the_col_div_aligned[OF assms(1), of c] pc by simp
  have len: "length ?raw = length ?p" by (simp add: raw)
  have cell: "?raw ! t = (if priced (?p ! t) then Fin 1 else NaN)" if "t < length ?p" for t
    unfolding raw by (rule map2_div_self_nth[OF that])
  have ones: "set ?raw \<subseteq> {Fin 1, NaN}"
    using cell len by (auto simp: in_set_conv_nth)
  have std: "rolling std0 ?w ?raw ! t = Fin 0"
    if t: "t < length ?p"
      and h: "1 \<le> ?w \<and> ?w \<le> t + 1 \<and> (\<forall>k. t + 1 - ?w \<le> k \<and> k \<le> t \<longrightarrow> priced (?p ! k))"
    for t
  proof -
    from t len have t': "t < length ?raw" by simp
    have "\<forall>k. t + 1 - ?w \<le> k \<and> k \<le> t \<longrightarrow> ?raw ! k = Fin 1"
      using h cell t by auto
    with h show ?thesis by (intro rolling_std0_ones[OF t']) blast+
  qed
  have c: "c \<in> set (columns tickers_df)"
    using assms(2) by (auto simp: columns_def dest!: map_of_SomeD intro: rev_image_eqI)
  from calculate_returns[OF assms(3), of pad benchmark_series tickers_df]
  obtain rs rsm where r: "calculate pad benchmark_series tickers_df window = Inr (rs, rsm)"
    by blast
  have "the_col rs c = replicate (length ?p) NaN"
    unfolding calculate_columns(1)[OF r c]
    by (rule nth_equalityI) (simp_all add: length_zscore len zscore_ones[OF ones])
  with r have res: "\<exists>rs rsm. calculate pad benchmark_series tickers_df window = Inr (rs, rsm) \<and>
        the_col rs c = replicate (length ?p) NaN"
    by blast
  from cell have cell': "\<forall>t < length ?p. ?raw ! t = (if priced (?p ! t) then Fin 1 else NaN)"
    by blast
  from std have std': "\<forall>t < length ?p.
        1 \<le> ?w \<and> ?w \<le> t + 1 \<and> (\<forall>k. t + 1 - ?w \<le> k \<and> k \<le> t \<longrightarrow> priced (?p ! k)) \<longrightarrow>
        rolling std0 ?w ?raw ! t = Fin 0"
    by blast
  show ?thesis
    by (rule exI[of _ ?p], rule exI[of _ ?raw]) (intro conjI refl len cell' std' res)
qed

theorem identical_series_nan_witness:
  "t_index tickers_two = s_index bench_two \<and>
   map_of (t_columns tickers_two) ''A'' = Some (s_values bench_two) \<and>
   (0::int) \<le> 2 \<and>
   s_values bench_two = [Fin 50, Fin 40] \<and>
   the_col (div_axis0 tickers_two bench_two) ''A'' = [Fin 1, Fin 1] \<and>
   rolling std0 2 (the_col (div_axis0 tickers_two bench_two) ''A'') = [NaN, Fin 0] \<and>
   (\<exists>rs rsm. calculate True bench_two tickers_two 2 = Inr (rs, rsm) \<and>
      the_col rs ''A'' = [NaN, NaN]) \<and>
   t_index tickers_zero = s_index bench_zero \<and>
   map_of (t_columns tickers_zero) ''A'' = Some (s_values bench_zero) \<and>
   s_values bench_zero = [Fin 0, Fin 40] \<and>
   the_col (div_axis0 tickers_zero bench_zero) ''A'' = [NaN, Fin 1] \<and>
   (\<exists>rs rsm. calculate True bench_zero tickers_zero 2 = Inr (rs, rsm) \<and>
      the_col rs ''A'' = [NaN, NaN])"
proof -
  have 1: "t_index tickers_two = s_index bench_two"
    by (simp add: tickers_two_def bench_two_def)
  have 2: "map_of (t_columns tickers_two) ''A'' = Some (s_values bench_two)"
    by (simp add: tickers_two_def bench_two_def)
  have 3: "(0::int) \<le> 2" by simp
  have v: "s_values bench_two = [Fin 50, Fin 40]" by (simp add: bench_two_def)
  have raw: "the_col (div_axis0 tickers_two bench_two) ''A'' = [Fin 1, Fin 1]"
    by (simp add: tickers_two_def bench_two_def div_axis0_def the_col_def fl_round_1)
  have std: "rolling std0 2 (the_col (div_axis0 tickers_two bench_two) ''A'') = [NaN, Fin 0]"
    unfolding raw
    by (simp add: rolling_def window_at_def std0_def all_same_def upt_2)
  from identical_series_nan[OF 1 2 3, of True]
  obtain rs rsm where
    "calculate True bench_two tickers_two 2 = Inr (rs, rsm) \<and>
     the_col rs ''A'' = replicate (length (s_values bench_two)) NaN"
    by blast
  then have res: "\<exists>rs rsm. calculate True bench_two tickers_two 2 = Inr (rs, rsm) \<and>
      the_col rs ''A'' = [NaN, NaN]"
    by (auto simp: v)
  have 4: "t_index tickers_zero = s_index bench_zero"
    by (simp add: tickers_zero_def bench_zero_def)
  have 5: "map_of (t_columns tickers_zero) ''A'' = Some (s_values bench_zero)"
    by (simp add: tickers_zero_def bench_zero_def)
  have v0: "s_values bench_zero = [Fin 0, Fin 40]" by (simp add: bench_zero_def)
  have raw0: "the_col (div_axis0 tickers_zero bench_zero) ''A'' = [NaN, Fin 1]"
    by (simp add: tickers_zero_def bench_zero_def div_axis0_def the_col_def fl_inf_def
        fl_round_1)
  from identical_series_nan[OF 4 5 3, of True]
  obtain rs0 rsm0 where
    "calculate True bench_zero tickers_zero 2 = Inr (rs0, rsm0) \<and>
     the_col rs0 ''A'' = replicate (length (s_values bench_zero)) NaN"
    by blast
  then have res0: "\<exists>rs rsm. calculate True bench_zero tickers_zero 2 = Inr (rs, rsm) \<and>
      the_col rs ''A'' = [NaN, NaN]"
    by (auto simp: v0)
  show ?thesis by (intro conjI 1 2 3 v raw std res 4 5 v0 raw0 res0)
qed

subsection \<open>What the metrics engine reports\<close>

lemma upt_3: "[0..<3] = [0, 1, 2]"
  by (simp add: upt_rec)

lemma other_day_result:
  "calculate pad bench_other_day tickers_two 15 =
     Inr (\<lparr>t_index = [(2024, 1, 2, 0), (2024, 1, 3, 0), (2024, 1, 4, 0)],
           t_columns = [(''A'', [NaN, NaN, NaN])]\<rparr>,
          \<lparr>t_index = [(2024, 1, 2, 0), (2024, 1, 3, 0), (2024, 1, 4, 0)],
           t_columns = [(''A'', [NaN, NaN, NaN])]\<rparr>)"
  by (cases pad)
     (simp_all add: calculate_def rolling_window_def Let_def bench_other_day_def tickers_two_def
        div_axis0_def reindex_def map_columns_def zip_columns_def rolling_def window_at_def
        pct_change_def shift_def upt_3 less_prod_def less_eq_prod_def)

lemma zero_window_result:
  "calculate pad bench_two tickers_two 0 =
     Inr (\<lparr>t_index = [(2024, 1, 2, 0), (2024, 1, 3, 0)], t_columns = [(''A'', [NaN, NaN])]\<rparr>,
          \<lparr>t_index = [(2024, 1, 2, 0), (2024, 1, 3, 0)], t_columns = [(''A'', [NaN, NaN])]\<rparr>)"
  by (cases pad)
     (simp_all add: calculate_def rolling_window_def Let_def bench_two_def tickers_two_def
        div_axis0_def map_columns_def zip_columns_def rolling_def window_at_def pct_change_def
        shift_def upt_2 fl_round_1 fl_nan)

text \<open>
  Claim C8 does not hold: the engine checks nothing itself. A benchmark quoted on another
  day than the instrument, and a window of 0, both give a result (of not-a-number), not an
  error.
\<close>

theorem unreported_counterexample:
  "s_index bench_other_day \<noteq> t_index tickers_two \<and>
   calculate True bench_other_day tickers_two 15 =
     Inr (\<lparr>t_index = [(2024, 1, 2, 0), (2024, 1, 3, 0), (2024, 1, 4, 0)],
           t_columns = [(''A'', [NaN, NaN, NaN])]\<rparr>,
          \<lparr>t_index = [(2024, 1, 2, 0), (2024, 1, 3, 0), (2024, 1, 4, 0)],
           t_columns = [(''A'', [NaN, NaN, NaN])]\<rparr>) \<and>
   calculate True bench_two tickers_two 0 =
     Inr (\<lparr>t_index = [(2024, 1, 2, 0), (2024, 1, 3, 0)], t_columns = [(''A'', [NaN, NaN])]\<rparr>,
          \<lparr>t_index = [(2024, 1, 2, 0), (2024, 1, 3, 0)], t_columns = [(''A'', [NaN, NaN])]\<rparr>)"
  using other_day_result[of True] zero_window_result[of True]
  by (simp add: bench_other_day_def tickers_two_def)

lemma set_outer_join: "set (outer_join xs ys) = set xs \<union> set ys"
  by (induction xs ys rule: outer_join.induct) auto

lemma sorted_outer_join:
  "sorted_wrt (<) xs \<Longrightarrow> sorted_wrt (<) ys \<Longrightarrow> sorted_wrt (<) (outer_join xs ys)"
  by (induction xs ys rule: outer_join.induct) (auto simp: set_outer_join)

lemma has_shape_map_columns:
  assumes "has_shape idx names df" and "\<And>xs. length (f xs) = length xs"
  shows "has_shape idx names (map_columns f df)"
  using assms
  by (auto simp: has_shape_def columns_map_columns)
     (auto simp: map_columns_def list_all_iff)

lemma list_all_zip_columns:
  "list_all (\<lambda>c. length (snd c) = k) xs \<Longrightarrow> list_all (\<lambda>c. length (snd c) = k) ys \<Longrightarrow>
   list_all (\<lambda>c. length (snd c) = k) (map2 (\<lambda>(c, xs) (d, ys). (c, map2 f xs ys)) xs ys)"
  unfolding list_all_iff
proof
  assume x: "\<forall>c \<in> set xs. length (snd c) = k" and y: "\<forall>c \<in> set ys. length (snd c) = k"
  fix e
  assume "e \<in> set (map2 (\<lambda>(c, xs) (d, ys). (c, map2 f xs ys)) xs ys)"
  then obtain p q where pq: "(p, q) \<in> set (zip xs ys)" "e = (fst p, map2 f (snd p) (snd q))"
    by (auto simp: case_prod_unfold)
  from pq(1) have "p \<in> set xs" "q \<in> set ys"
    by (auto dest: set_zip_leftD set_zip_rightD)
  with x y show "length (snd e) = k" by (simp add: pq(2))
qed

lemma has_shape_zip_columns:
  assumes "has_shape idx names a" and "has_shape idx names b"
  shows "has_shape idx names (zip_columns f a b)"
proof -
  from assms have c: "columns a = columns b" by (simp add: has_shape_def)
  from assms have "list_all (\<lambda>c. length (snd c) = length idx) (t_columns a)"
    "list_all (\<lambda>c. length (snd c) = length idx) (t_columns b)"
    by (simp_all add: has_shape_def)
  from list_all_zip_columns[OF this, of f] columns_zip_columns[OF c, of f] assms(1)
  show ?thesis by (simp add: has_shape_def zip_columns_def)
qed

lemma has_shape_div_axis0:
  assumes "wf_table df" and "wf_series s"
  shows "has_shape (if t_index df = s_index s then t_index df
                    else outer_join (t_index df) (s_index s))
           (columns df) (div_axis0 df s)"
  using assms
  by (auto simp: has_shape_def div_axis0_def wf_table_def wf_series_def columns_def reindex_def
      Let_def list_all_iff comp_def case_prod_unfold)

lemma same_shape_of_has_shape:
  "has_shape idx names a \<Longrightarrow> has_shape idx names b \<Longrightarrow> distinct names \<Longrightarrow> same_shape a b"
  by (auto simp: has_shape_def same_shape_def wf_table_def columns_def)

lemma has_shape_length:
  "has_shape idx names df \<Longrightarrow> c \<in> set names \<Longrightarrow> length (the_col df c) = length idx"
  by (auto simp: has_shape_def the_col_def columns_def list_all_iff map_of_eq_None_iff
      split: option.splits dest!: map_of_SomeD)

text \<open>A row that one side lacks is not-a-number in the raw ratio.\<close>

lemma reindex_absent:
  assumes "k < length new_idx" and "new_idx ! k \<notin> set idx"
  shows "reindex idx vals new_idx ! k = NaN"
proof -
  have "new_idx ! k \<notin> fst ` set (zip idx vals)"
    using assms(2) by (auto dest: set_zip_leftD)
  then have "map_of (zip idx vals) (new_idx ! k) = None"
    by (simp add: map_of_eq_None_iff)
  with assms(1) show ?thesis by (simp add: reindex_def)
qed

lemma length_reindex: "length (reindex idx vals new_idx) = length new_idx"
  by (simp add: reindex_def)

lemma the_col_div_joined:
  assumes "t_index df \<noteq> s_index s" and "c \<in> set (columns df)"
  shows "the_col (div_axis0 df s) c =
     map2 fl_div (reindex (t_index df) (the_col df c) (outer_join (t_index df) (s_index s)))
       (reindex (s_index s) (s_values s) (outer_join (t_index df) (s_index s)))"
  using assms
  by (auto simp: div_axis0_def the_col_def map_of_map Let_def columns_def map_of_eq_None_iff
      split: option.splits)

lemma raw_absent:
  assumes c: "c \<in> set (columns df)" and k: "k < length (t_index (div_axis0 df s))"
    and a: "t_index (div_axis0 df s) ! k \<notin> set (t_index df) \<or>
            t_index (div_axis0 df s) ! k \<notin> set (s_index s)"
  shows "k < length (the_col (div_axis0 df s) c) \<longrightarrow> the_col (div_axis0 df s) c ! k = NaN"
proof (cases "t_index df = s_index s")
  case True
  then have "t_index (div_axis0 df s) = t_index df" by (simp add: div_axis0_def)
  with k a True show ?thesis by (auto simp: in_set_conv_nth)
next
  case False
  let ?idx = "outer_join (t_index df) (s_index s)"
  from False have i: "t_index (div_axis0 df s) = ?idx" by (simp add: div_axis0_def Let_def)
  from k i have k': "k < length ?idx" by simp
  from a i have "reindex (t_index df) (the_col df c) ?idx ! k = NaN \<or>
                 reindex (s_index s) (s_values s) ?idx ! k = NaN"
    using reindex_absent[OF k'] by auto
  then show ?thesis
    unfolding the_col_div_joined[OF False c]
    using k' by (auto simp: length_reindex fl_nan)
qed

text \<open>
  Claim C8, as amended. Of the two violations only a negative window is reported: pandas
  raises ValueError from the rolling window of line 13 (the engine has no check of its
  own) and nothing is returned. A window of 0 and time indices that differ are not
  reported: the engine returns its two tables, of one shape, with the columns of the
  instrument table, over the index of the instruments if the benchmark has the same, else
  over the union of the two (increasing) indices. Both tables are not-a-number at every
  row that does not fill the window (every row, for a window of 0), and the ratio is
  not-a-number at every row that the instruments or the benchmark lack.
\<close>

theorem calculate_reports:
  assumes "wf_table tickers_df" and "wf_series benchmark_series"
    and "sorted_wrt (<) (t_index tickers_df)" and "sorted_wrt (<) (s_index benchmark_series)"
  shows "(window < 0 \<longrightarrow> calculate pad benchmark_series tickers_df window = Inl ValueError) \<and>
         (0 \<le> window \<longrightarrow>
            (\<exists>rs rsm. calculate pad benchmark_series tickers_df window = Inr (rs, rsm) \<and>
               same_shape rs rsm \<and> columns rs = columns tickers_df \<and>
               t_index rs =
                 (if t_index tickers_df = s_index benchmark_series then t_index tickers_df
                  else outer_join (t_index tickers_df) (s_index benchmark_series)) \<and>
               set (t_index rs) = set (t_index tickers_df) \<union> set (s_index benchmark_series) \<and>
               sorted_wrt (<) (t_index rs) \<and>
               (\<forall>c \<in> set (columns tickers_df). \<forall>k < length (t_index rs).
                  (int k + 1 < window \<or> window = 0 \<longrightarrow>
                     the_col rs c ! k = NaN \<and> the_col rsm c ! k = NaN) \<and>
                  (t_index rs ! k \<notin> set (t_index tickers_df) \<or>
                   t_index rs ! k \<notin> set (s_index benchmark_series) \<longrightarrow>
                     the_col rs c ! k = NaN))))"
proof (intro conjI impI)
  assume "window < 0"
  then show "calculate pad benchmark_series tickers_df window = Inl ValueError"
    by (rule calculate_negative)
next
  assume w: "0 \<le> window"
  let ?idx = "if t_index tickers_df = s_index benchmark_series then t_index tickers_df
                  else outer_join (t_index tickers_df) (s_index benchmark_series)"
  let ?names = "columns tickers_df"
  let ?w = "nat window"
  let ?raw = "div_axis0 tickers_df benchmark_series"
  let ?norm = "\<lambda>k df. map_columns (map (fl_add (Fin k)))
                 (zip_columns fl_div
                    (zip_columns fl_sub df (map_columns (rolling mean ?w) df))
                    (map_columns (rolling std0 ?w) df))"
  let ?roc = "map_columns (map (\<lambda>v. fl_mul v (Fin 100)))
                (map_columns (pct_change pad 5) (?norm 100 ?raw))"
  have raw: "has_shape ?idx ?names ?raw"
    by (rule has_shape_div_axis0[OF assms(1,2)])
  have norm: "has_shape ?idx ?names (?norm k df)" if "has_shape ?idx ?names df" for k df
    by (intro has_shape_map_columns has_shape_zip_columns that) (simp_all add: length_rolling)
  have rs: "has_shape ?idx ?names (?norm 100 ?raw)" by (rule norm[OF raw])
  have roc: "has_shape ?idx ?names ?roc"
    by (intro has_shape_map_columns rs) (simp_all add: length_pct_change)
  have rsm: "has_shape ?idx ?names (?norm 101 ?roc)" by (rule norm[OF roc])
  have d: "distinct ?names" using assms(1) by (simp add: wf_table_def columns_def)
  have c: "calculate pad benchmark_series tickers_df window = Inr (?norm 100 ?raw, ?norm 101 ?roc)"
    using w by (simp add: calculate_def rolling_window_def Let_def)
  have i: "t_index (?norm 100 ?raw) = ?idx" "columns (?norm 100 ?raw) = ?names"
    using rs by (simp_all add: has_shape_def)
  have ri: "t_index ?raw = ?idx" using raw by (simp add: has_shape_def)
  have u: "set ?idx = set (t_index tickers_df) \<union> set (s_index benchmark_series)"
    by (simp add: set_outer_join)
  have s: "sorted_wrt (<) ?idx"
    using assms(3,4) by (simp add: sorted_outer_join)
  have cells: "(int k + 1 < window \<or> window = 0 \<longrightarrow>
                     the_col (?norm 100 ?raw) col ! k = NaN \<and>
                     the_col (?norm 101 ?roc) col ! k = NaN) \<and>
                  (?idx ! k \<notin> set (t_index tickers_df) \<or>
                   ?idx ! k \<notin> set (s_index benchmark_series) \<longrightarrow>
                     the_col (?norm 100 ?raw) col ! k = NaN)"
    if col: "col \<in> set ?names" and k: "k < length ?idx" for col k
  proof -
    note cc = calculate_columns[OF c col]
    have lr: "length (the_col ?raw col) = length ?idx" by (rule has_shape_length[OF raw col])
    have lrs: "length (the_col (?norm 100 ?raw) col) = length ?idx"
      by (rule has_shape_length[OF rs col])
    from k lr have kr: "k < length (the_col ?raw col)" by simp
    from k lrs have kroc: "k < length (roc_of pad (the_col (?norm 100 ?raw) col))"
      by (simp add: length_roc_of)
    have 1: "the_col (?norm 100 ?raw) col ! k = NaN \<and> the_col (?norm 101 ?roc) col ! k = NaN"
      if "int k + 1 < window \<or> window = 0"
    proof (cases "window = 0")
      case True
      then show ?thesis
        unfolding cc(2) unfolding cc(1)
        using zscore_zero_window[OF kr] zscore_zero_window[OF kroc[unfolded cc(1)]] by simp
    next
      case False
      with that have "k + 1 < ?w" by linarith
      then show ?thesis
        unfolding cc(2) unfolding cc(1)
        using zscore_underfull[OF kr] zscore_underfull[OF kroc[unfolded cc(1)]] by simp
    qed
    have 2: "the_col (?norm 100 ?raw) col ! k = NaN"
      if "?idx ! k \<notin> set (t_index tickers_df) \<or> ?idx ! k \<notin> set (s_index benchmark_series)"
    proof -
      from raw_absent[OF col, of k benchmark_series] k that kr
      have "the_col ?raw col ! k = NaN" unfolding ri by blast
      then show ?thesis unfolding cc(1) by (rule zscore_nan_cell[OF kr])
    qed
    from 1 2 show ?thesis by blast
  qed
  from cells have cells': "\<forall>col \<in> set ?names. \<forall>k < length ?idx.
                 (int k + 1 < window \<or> window = 0 \<longrightarrow>
                     the_col (?norm 100 ?raw) col ! k = NaN \<and>
                     the_col (?norm 101 ?roc) col ! k = NaN) \<and>
                  (?idx ! k \<notin> set (t_index tickers_df) \<or>
                   ?idx ! k \<notin> set (s_index benchmark_series) \<longrightarrow>
                     the_col (?norm 100 ?raw) col ! k = NaN)"
    by blast
  show "\<exists>rs rsm. calculate pad benchmark_series tickers_df window = Inr (rs, rsm) \<and>
               same_shape rs rsm \<and> columns rs = columns tickers_df \<and>
               t_index rs = ?idx \<and>
               set (t_index rs) = set (t_index tickers_df) \<union> set (s_index benchmark_series) \<and>
               sorted_wrt (<) (t_index rs) \<and>
               (\<forall>c \<in> set (columns tickers_df). \<forall>k < length (t_index rs).
                  (int k + 1 < window \<or> window = 0 \<longrightarrow>
                     the_col rs c ! k = NaN \<and> the_col rsm c ! k = NaN) \<and>
                  (t_index rs ! k \<notin> set (t_index tickers_df) \<or>
                   t_index rs ! k \<notin> set (s_index benchmark_series) \<longrightarrow>
                     the_col rs c ! k = NaN))"
    apply (rule exI[of _ "?norm 100 ?raw"], rule exI[of _ "?norm 101 ?roc"])
    unfolding i
    by (intro conjI c same_shape_of_has_shape[OF rs rsm d] refl u s cells')
qed

theorem calculate_reports_witness:
  "wf_table tickers_two \<and> wf_series bench_other_day \<and>
   sorted_wrt (<) (t_index tickers_two) \<and> sorted_wrt (<) (s_index bench_other_day) \<and>
   calculate True bench_other_day tickers_two (-1) = Inl ValueError \<and>
   (\<exists>rs rsm. calculate True bench_other_day tickers_two 15 = Inr (rs, rsm) \<and>
      same_shape rs rsm \<and> columns rs = [''A''] \<and>
      t_index rs = [(2024, 1, 2, 0), (2024, 1, 3, 0), (2024, 1, 4, 0)] \<and>
      the_col rs ''A'' = [NaN, NaN, NaN] \<and> the_col rsm ''A'' = [NaN, NaN, NaN]) \<and>
   wf_series bench_two \<and> sorted_wrt (<) (s_index bench_two) \<and>
   the_col (div_axis0 tickers_two bench_two) ''A'' = [Fin 1, Fin 1] \<and>
   (\<exists>rs rsm. calculate True bench_two tickers_two 3 = Inr (rs, rsm) \<and>
      t_index rs = [(2024, 1, 2, 0), (2024, 1, 3, 0)] \<and>
      the_col rs ''A'' = [NaN, NaN] \<and> the_col rsm ''A'' = [NaN, NaN])"
proof -
  have 1: "wf_table tickers_two" by (simp add: wf_table_def tickers_two_def)
  have 2: "wf_series bench_other_day" by (simp add: wf_series_def bench_other_day_def)
  have 3: "sorted_wrt (<) (t_index tickers_two)"
    by (simp add: tickers_two_def less_prod_def less_eq_prod_def)
  have 4: "sorted_wrt (<) (s_index bench_other_day)" by (simp add: bench_other_day_def)
  have 5: "wf_series bench_two" by (simp add: wf_series_def bench_two_def)
  have 6: "sorted_wrt (<) (s_index bench_two)"
    by (simp add: bench_two_def less_prod_def less_eq_prod_def)
  have cs: "columns tickers_two = [''A'']" by (simp add: columns_def tickers_two_def)
  from calculate_reports[OF 1 2 3 4, of "-1" True]
  have neg: "calculate True bench_other_day tickers_two (-1) = Inl ValueError" by simp
  from calculate_reports[OF 1 2 3 4, of 15 True]
  obtain rs rsm where
    r: "calculate True bench_other_day tickers_two 15 = Inr (rs, rsm)" "same_shape rs rsm"
       "columns rs = columns tickers_two"
    by auto
  from r(1) other_day_result[of True]
  have v: "t_index rs = [(2024, 1, 2, 0), (2024, 1, 3, 0), (2024, 1, 4, 0)]"
    "the_col rs ''A'' = [NaN, NaN, NaN]" "the_col rsm ''A'' = [NaN, NaN, NaN]"
    by (auto simp: the_col_def)
  from r v cs have a:
    "\<exists>rs rsm. calculate True bench_other_day tickers_two 15 = Inr (rs, rsm) \<and>
      same_shape rs rsm \<and> columns rs = [''A''] \<and>
      t_index rs = [(2024, 1, 2, 0), (2024, 1, 3, 0), (2024, 1, 4, 0)] \<and>
      the_col rs ''A'' = [NaN, NaN, NaN] \<and> the_col rsm ''A'' = [NaN, NaN, NaN]"
    by (intro exI[of _ rs] exI[of _ rsm] conjI) simp_all
  have raw: "the_col (div_axis0 tickers_two bench_two) ''A'' = [Fin 1, Fin 1]"
    by (simp add: tickers_two_def bench_two_def div_axis0_def the_col_def fl_round_1)
  have eq: "t_index tickers_two = s_index bench_two"
    by (simp add: tickers_two_def bench_two_def)
  from calculate_reports[OF 1 5 3 6, of 3 True]
  obtain rs' rsm' where
    r': "calculate True bench_two tickers_two 3 = Inr (rs', rsm')"
    and i': "t_index rs' =
                 (if t_index tickers_two = s_index bench_two then t_index tickers_two
                  else outer_join (t_index tickers_two) (s_index bench_two))"
    and n': "\<forall>c \<in> set (columns tickers_two). \<forall>k < length (t_index rs').
                  (int k + 1 < 3 \<or> (3::int) = 0 \<longrightarrow>
                     the_col rs' c ! k = NaN \<and> the_col rsm' c ! k = NaN)"
    and sh: "same_shape rs' rsm'" and cr: "columns rs' = columns tickers_two"
    by auto
  from i' eq have idx: "t_index rs' = [(2024, 1, 2, 0), (2024, 1, 3, 0)]"
    by (simp add: tickers_two_def)
  from sh cr cs have l: "length (the_col rs' ''A'') = 2" "length (the_col rsm' ''A'') = 2"
    using same_shape_lengths(1,2)[OF sh, of "''A''"] idx by simp_all
  from n' cs idx have
    "the_col rs' ''A'' ! 0 = NaN" "the_col rs' ''A'' ! 1 = NaN"
    "the_col rsm' ''A'' ! 0 = NaN" "the_col rsm' ''A'' ! 1 = NaN"
    by simp_all
  with l have "the_col rs' ''A'' = [NaN, NaN]" "the_col rsm' ''A'' = [NaN, NaN]"
    by (auto simp: list_eq_iff_nth_eq less_Suc_eq numeral_2_eq_2)
  with r' idx have b:
    "\<exists>rs rsm. calculate True bench_two tickers_two 3 = Inr (rs, rsm) \<and>
      t_index rs = [(2024, 1, 2, 0), (2024, 1, 3, 0)] \<and>
      the_col rs ''A'' = [NaN, NaN] \<and> the_col rsm ''A'' = [NaN, NaN]"
    by blast
  show ?thesis by (intro conjI 1 2 3 4 neg a 5 6 raw b)
qed

end
